theory Spec2Isabelle
  imports Complex_Main
begin

section \<open>The uio container reader (src/uio.py)\<close>

text \<open>
  A shallow embedding of the reader in \<^verbatim>\<open>src/uio.py\<close>. Byte strings and decoded
  text are both \<^typ>\<open>string\<close>; a Python exception is a value of \<open>error\<close> on the left
  of a sum; the one file object shared by the container and all of its entries is an
  explicit state that every I/O function takes and returns, next to its result or its
  exception (a raise leaves the file where the last read or seek put it).
\<close>

subsection \<open>Exceptions\<close>

type_synonym bytes = string

datatype error =
    EOFError
  | IOError string
  | ValueError
  | TypeError
  | KeyError string
  | IndexError
  | AttributeError
  | UnicodeDecodeError
  | ZeroDivisionError
  | NonAsciiText

text \<open>
  \<open>NonAsciiText\<close> is no exception of the source. It stands for a descriptor that
  decodes to characters beyond ASCII: the source goes on with it, its patterns and
  \<open>int\<close> then consult the Unicode tables, which this embedding does not hold. What is
  proved about parsing is proved for ASCII text and for bytes that do not decode.
\<close>

text \<open>The spec's names for the exceptions the source raises.\<close>

abbreviation TruncatedStream :: error where
  "TruncatedStream \<equiv> EOFError"

abbreviation UnsupportedEntryKind :: error where
  "UnsupportedEntryKind \<equiv> IOError ''uio files containing tables are not supported''"

abbreviation BadMagic :: error where
  "BadMagic \<equiv> IOError ''unsupported file format''"

abbreviation UseAfterClose :: error where
  "UseAfterClose \<equiv> ValueError"

definition RecordLengthMismatch :: "error \<Rightarrow> bool" where
  "RecordLengthMismatch e =
     (e = IOError ''error reading block'' \<or> e = IOError ''error skipping block'' \<or>
      e = IOError ''error reading array'')"

subsection \<open>The file object\<close>

text \<open>
  A binary file opened for reading: its bytes, the current position and whether it has
  been closed. Every method of a closed file raises ValueError. \<open>read\<close> returns the
  bytes that are left when fewer than \<open>n\<close> remain; \<open>seek\<close> may move past the end.
\<close>

record fileobj =
  f_content :: bytes
  f_pos :: nat
  f_closed :: bool

definition open_rb :: "bytes \<Rightarrow> fileobj" where
  "open_rb bs = \<lparr>f_content = bs, f_pos = 0, f_closed = False\<rparr>"

type_synonym 'a io = "(error + 'a) \<times> fileobj"

definition f_read :: "nat \<Rightarrow> fileobj \<Rightarrow> bytes io" where
  "f_read n f =
     (if f_closed f then (Inl ValueError, f)
      else let d = take n (drop (f_pos f) (f_content f))
           in (Inr d, f\<lparr>f_pos := f_pos f + length d\<rparr>))"

definition f_seek_cur :: "nat \<Rightarrow> fileobj \<Rightarrow> unit io" where
  "f_seek_cur n f =
     (if f_closed f then (Inl ValueError, f) else (Inr (), f\<lparr>f_pos := f_pos f + n\<rparr>))"

definition f_seek :: "nat \<Rightarrow> fileobj \<Rightarrow> unit io" where
  "f_seek p f = (if f_closed f then (Inl ValueError, f) else (Inr (), f\<lparr>f_pos := p\<rparr>))"

definition f_tell :: "fileobj \<Rightarrow> nat io" where
  "f_tell f = (if f_closed f then (Inl ValueError, f) else (Inr (f_pos f), f))"

definition f_close :: "fileobj \<Rightarrow> fileobj" where
  "f_close f = f\<lparr>f_closed := True\<rparr>"

subsection \<open>Record I/O\<close>

text \<open>\<open>Struct('>I').unpack\<close>: four bytes as a big-endian unsigned integer.\<close>

definition uint_from_bytes :: "bytes \<Rightarrow> nat" where
  "uint_from_bytes d = foldl (\<lambda>a c. a * 256 + of_char c) 0 d"

text \<open>The inverse, \<open>Struct('>I').pack\<close>, used to write down streams.\<close>

definition uint_to_bytes :: "nat \<Rightarrow> bytes" where
  "uint_to_bytes n =
     [char_of (n div 16777216), char_of (n div 65536), char_of (n div 256), char_of n]"

definition read_block_size :: "fileobj \<Rightarrow> nat io" where
  "read_block_size f =
     (case f_read 4 f of
        (Inl e, f1) \<Rightarrow> (Inl e, f1)
      | (Inr data, f1) \<Rightarrow>
          if length data \<noteq> 4 then (Inl EOFError, f1) else (Inr (uint_from_bytes data), f1))"

definition read_block :: "fileobj \<Rightarrow> bytes io" where
  "read_block f =
     (case read_block_size f of
        (Inl e, f1) \<Rightarrow> (Inl e, f1)
      | (Inr nbytes, f1) \<Rightarrow>
          (case f_read nbytes f1 of
             (Inl e, f2) \<Rightarrow> (Inl e, f2)
           | (Inr data, f2) \<Rightarrow>
               (case read_block_size f2 of
                  (Inl e, f3) \<Rightarrow> (Inl e, f3)
                | (Inr nbytes2, f3) \<Rightarrow>
                    if nbytes \<noteq> nbytes2 then (Inl (IOError ''error reading block''), f3)
                    else (Inr data, f3))))"

definition skip_block :: "fileobj \<Rightarrow> unit io" where
  "skip_block f =
     (case read_block_size f of
        (Inl e, f1) \<Rightarrow> (Inl e, f1)
      | (Inr nbytes, f1) \<Rightarrow>
          (case f_seek_cur nbytes f1 of
             (Inl e, f2) \<Rightarrow> (Inl e, f2)
           | (Inr _, f2) \<Rightarrow>
               (case read_block_size f2 of
                  (Inl e, f3) \<Rightarrow> (Inl e, f3)
                | (Inr nbytes2, f3) \<Rightarrow>
                    if nbytes \<noteq> nbytes2 then (Inl (IOError ''error skipping block''), f3)
                    else (Inr (), f3))))"

subsection \<open>String assembler\<close>

text \<open>The bytes that \<open>bytes.rstrip()\<close> removes: space, TAB, LF, CR, VT, FF.\<close>

definition is_space :: "char \<Rightarrow> bool" where
  "is_space c = (c \<in> set [CHR '' '', CHR 0x09, CHR 0x0A, CHR 0x0D, CHR 0x0B, CHR 0x0C])"

definition rstrip :: "string \<Rightarrow> string" where
  "rstrip s = rev (dropWhile is_space (rev s))"

definition endswith :: "string \<Rightarrow> char \<Rightarrow> bool" where
  "endswith s c = (s \<noteq> [] \<and> last s = c)"

text \<open>
  \<open>f_adv f f'\<close>: \<open>f'\<close> is the same open file as \<open>f\<close>, further on and not past the end.
  Every successful record read advances the file in this sense, which is why the loops
  of the reader terminate.
\<close>

definition f_adv :: "fileobj \<Rightarrow> fileobj \<Rightarrow> bool" where
  "f_adv f f' =
     (f_content f' = f_content f \<and> f_closed f' = f_closed f \<and> \<not> f_closed f \<and>
      f_pos f < f_pos f' \<and> f_pos f' \<le> length (f_content f))"

lemma f_adv_trans: "f_adv f f1 \<Longrightarrow> f_adv f1 f2 \<Longrightarrow> f_adv f f2"
  by (auto simp: f_adv_def)

lemma f_adv_measure:
  "f_adv f f' \<Longrightarrow> length (f_content f') - f_pos f' < length (f_content f) - f_pos f"
  by (auto simp: f_adv_def)

lemma read_block_size_Inr:
  assumes "read_block_size f = (Inr n, f')"
  shows "f' = f\<lparr>f_pos := f_pos f + 4\<rparr>" and "\<not> f_closed f"
    and "f_pos f + 4 \<le> length (f_content f)"
    and "n = uint_from_bytes (take 4 (drop (f_pos f) (f_content f)))"
  using assms
  by (auto simp: read_block_size_def f_read_def Let_def split: if_splits)

lemma read_block_size_adv: "read_block_size f = (Inr n, f') \<Longrightarrow> f_adv f f'"
  by (auto simp: read_block_size_def f_read_def Let_def f_adv_def split: if_splits)

lemma read_block_adv:
  assumes "read_block f = (Inr d, f')"
  shows "f_adv f f'"
proof -
  from assms obtain n f1 d' f2 n2 where
    a: "read_block_size f = (Inr n, f1)" and b: "f_read n f1 = (Inr d', f2)"
    and c: "read_block_size f2 = (Inr n2, f')"
    by (auto simp: read_block_def split: sum.splits prod.splits if_splits)
  from b have "f_content f2 = f_content f1" "f_closed f2 = f_closed f1" "f_pos f1 \<le> f_pos f2"
    by (auto simp: f_read_def Let_def split: if_splits)
  with read_block_size_adv [OF a] read_block_size_adv [OF c] show ?thesis
    by (auto simp: f_adv_def)
qed

lemma skip_block_adv:
  assumes "skip_block f = (Inr u, f')"
  shows "f_adv f f'"
proof -
  from assms obtain n f1 f2 n2 where
    a: "read_block_size f = (Inr n, f1)" and b: "f_seek_cur n f1 = (Inr (), f2)"
    and c: "read_block_size f2 = (Inr n2, f')"
    by (auto simp: skip_block_def split: sum.splits prod.splits if_splits)
  from b have "f_content f2 = f_content f1" "f_closed f2 = f_closed f1" "f_pos f1 \<le> f_pos f2"
    by (auto simp: f_seek_cur_def split: if_splits)
  with read_block_size_adv [OF a] read_block_size_adv [OF c] show ?thesis
    by (auto simp: f_adv_def)
qed

text \<open>
  \<open>_read_string\<close>: the first record, then, while the text read so far ends (after
  right-stripping) with the continuation marker, the marker is dropped and the next
  record appended.
\<close>

function read_string_loop :: "bytes \<Rightarrow> fileobj \<Rightarrow> bytes io" where
  "read_string_loop s f =
     (if endswith (rstrip s) (CHR ''&'') then
        (case read_block f of
           (Inl e, f1) \<Rightarrow> (Inl e, f1)
         | (Inr d, f1) \<Rightarrow> read_string_loop (butlast (rstrip s) @ d) f1)
      else (Inr (rstrip s), f))"
  by pat_completeness auto
termination
  by (relation "measure (\<lambda>(s, f). length (f_content f) - f_pos f)")
     (auto dest!: read_block_adv [OF sym] f_adv_measure)

declare read_string_loop.simps [simp del]

definition read_string :: "fileobj \<Rightarrow> bytes io" where
  "read_string f =
     (case read_block f of
        (Inl e, f1) \<Rightarrow> (Inl e, f1)
      | (Inr s, f1) \<Rightarrow> read_string_loop s f1)"

subsection \<open>Descriptor parser\<close>

text \<open>
  Well-formed UTF-8, on the values of the bytes: one byte below 0x80, or a lead byte
  with its continuation bytes, without overlong forms, surrogates or code points above
  U+10FFFF.
\<close>

definition utf8_cont :: "nat \<Rightarrow> bool" where
  "utf8_cont b = (128 \<le> b \<and> b \<le> 191)"

fun utf8_valid :: "nat list \<Rightarrow> bool" where
  "utf8_valid [] = True"
| "utf8_valid [a] = (a < 128)"
| "utf8_valid [a, b] =
     (if a < 128 then utf8_valid [b] else 194 \<le> a \<and> a \<le> 223 \<and> utf8_cont b)"
| "utf8_valid [a, b, c] =
     (if a < 128 then utf8_valid [b, c]
      else if 194 \<le> a \<and> a \<le> 223 then utf8_cont b \<and> utf8_valid [c]
      else utf8_cont c \<and>
           (if a = 224 then 160 \<le> b \<and> b \<le> 191
            else if a = 237 then 128 \<le> b \<and> b \<le> 159
            else 225 \<le> a \<and> a \<le> 239 \<and> utf8_cont b))"
| "utf8_valid (a # b # c # d # r) =
     (if a < 128 then utf8_valid (b # c # d # r)
      else if 194 \<le> a \<and> a \<le> 223 then utf8_cont b \<and> utf8_valid (c # d # r)
      else if 224 \<le> a \<and> a \<le> 239 then
        utf8_cont c \<and> utf8_valid (d # r) \<and>
        (if a = 224 then 160 \<le> b \<and> b \<le> 191
         else if a = 237 then 128 \<le> b \<and> b \<le> 159
         else utf8_cont b)
      else utf8_cont c \<and> utf8_cont d \<and> utf8_valid r \<and>
           (if a = 240 then 144 \<le> b \<and> b \<le> 191
            else if a = 244 then 128 \<le> b \<and> b \<le> 143
            else 241 \<le> a \<and> a \<le> 243 \<and> utf8_cont b))"

text \<open>
  \<open>s.decode()\<close> with the default codec, UTF-8: bytes that are not well-formed raise
  UnicodeDecodeError; ASCII bytes are their own text; other text is outside this
  embedding (see \<open>NonAsciiText\<close>).
\<close>

definition ascii_text :: "string \<Rightarrow> bool" where
  "ascii_text s = list_all (\<lambda>c. of_char c < (128::nat)) s"

definition decode :: "bytes \<Rightarrow> error + string" where
  "decode s =
     (if ascii_text s then Inr s
      else if utf8_valid (map of_char s) then Inl NonAsciiText
      else Inl UnicodeDecodeError)"

text \<open>
  The character classes \<open>\w\<close>, \<open>\d\<close> and \<open>\s\<close> of \<open>re\<close> on ASCII text. For text
  (unlike bytes) white space also covers the separators 0x1C-0x1F.
\<close>

definition is_uspace :: "char \<Rightarrow> bool" where
  "is_uspace c = (is_space c \<or> c \<in> set [CHR 0x1C, CHR 0x1D, CHR 0x1E, CHR 0x1F])"

definition is_word :: "char \<Rightarrow> bool" where
  "is_word c =
     (let n = (of_char c :: nat)
      in (48 \<le> n \<and> n \<le> 57) \<or> (65 \<le> n \<and> n \<le> 90) \<or> n = 95 \<or> (97 \<le> n \<and> n \<le> 122))"

definition is_digit :: "char \<Rightarrow> bool" where
  "is_digit c = (let n = (of_char c :: nat) in 48 \<le> n \<and> n \<le> 57)"

definition newline :: char where
  "newline = CHR 0x0A"

definition quote :: char where
  "quote = CHR 0x27"

text \<open>
  \<open>_re_desc.match(s)\<close> for the pattern \<^verbatim>\<open>^(\w+) (\w+) ?(.*)$\<close>, returning the three
  groups. Both \<open>\w+\<close> take the longest run of word characters (a shorter one would have
  to be followed by a space, respectively would leave the same tail to \<open>.*$\<close>); the
  optional space is taken when it is there; \<open>.\<close> does not match a newline and \<open>$\<close>
  matches at the end or before a final newline.
\<close>

definition re_desc_match :: "string \<Rightarrow> (string \<times> string \<times> string) option" where
  "re_desc_match s =
     (let w1 = takeWhile is_word s; r1 = dropWhile is_word s
      in if w1 = [] then None
         else (case r1 of
                 [] \<Rightarrow> None
               | c # r2 \<Rightarrow>
                   if c \<noteq> CHR '' '' then None
                   else (let w2 = takeWhile is_word r2; r3 = dropWhile is_word r2
                         in if w2 = [] then None
                            else (let r4 = (case r3 of
                                              [] \<Rightarrow> r3
                                            | c3 # t \<Rightarrow> if c3 = CHR '' '' then t else r3);
                                      pstr = (if endswith r4 newline then butlast r4 else r4)
                                  in if newline \<in> set pstr then None
                                     else Some (w1, w2, pstr)))))"

text \<open>
  One match attempt of \<^verbatim>\<open>\w+=(?:(?:'[^']*')|(?:\S+))\<close> at the start of \<open>s\<close>: the
  matched text. The quoted alternative is tried first and needs its closing quote;
  otherwise the value is the longest run of characters that are not white space, which
  must not be empty.
\<close>

definition re_params_match :: "string \<Rightarrow> string option" where
  "re_params_match s =
     (let k = takeWhile is_word s; r = dropWhile is_word s
      in if k = [] then None
         else (case r of
                 [] \<Rightarrow> None
               | c # v \<Rightarrow>
                   if c \<noteq> CHR ''='' then None
                   else if v \<noteq> [] \<and> hd v = quote \<and> quote \<in> set (tl v)
                   then Some (k @ [c] @ [quote] @ takeWhile (\<lambda>x. x \<noteq> quote) (tl v) @ [quote])
                   else (let t = takeWhile (\<lambda>x. \<not> is_uspace x) v
                         in if t = [] then None else Some (k @ [c] @ t))))"

lemma re_params_match_length:
  "re_params_match s = Some tok \<Longrightarrow> tok \<noteq> [] \<and> s \<noteq> []"
  by (auto simp: re_params_match_def Let_def split: list.splits if_splits)

text \<open>
  \<open>findall\<close>: scan from the left; after a match go on behind it, after a failed attempt
  one character further.
\<close>

function re_params_findall :: "string \<Rightarrow> string list" where
  "re_params_findall s =
     (if s = [] then []
      else (case re_params_match s of
              None \<Rightarrow> re_params_findall (tl s)
            | Some tok \<Rightarrow> tok # re_params_findall (drop (length tok) s)))"
  by pat_completeness auto
termination
  by (relation "measure length") (auto dest: re_params_match_length)

declare re_params_findall.simps [simp del]

text \<open>\<open>it.split('=', 1)\<close>: cut at the first \<open>=\<close>, if there is one.\<close>

definition split_eq :: "string \<Rightarrow> string list" where
  "split_eq it =
     (if CHR ''='' \<in> set it
      then [takeWhile (\<lambda>c. c \<noteq> CHR ''='') it, tl (dropWhile (\<lambda>c. c \<noteq> CHR ''='') it)]
      else [it])"

text \<open>Lines 27-28: a value that starts and ends with a quote loses both (\<open>value[1:-1]\<close>).\<close>

definition strip_quotes :: "string \<Rightarrow> string" where
  "strip_quotes v =
     (if v \<noteq> [] \<and> hd v = quote \<and> last v = quote then butlast (tl v) else v)"

text \<open>
  The loop over the parameter tokens (lines 25-29). Unpacking \<open>key, value\<close> raises
  ValueError when the split does not give two parts.
\<close>

type_synonym params = "string \<rightharpoonup> string"

fun params_loop :: "params \<Rightarrow> string list \<Rightarrow> error + params" where
  "params_loop ps [] = Inr ps"
| "params_loop ps (it # pitems) =
     (case split_eq it of
        [key, v] \<Rightarrow> params_loop (ps(key \<mapsto> strip_quotes v)) pitems
      | _ \<Rightarrow> Inl ValueError)"

text \<open>\<open>_parse_descriptor\<close>; \<open>Inr None\<close> is the source's \<open>return None\<close>.\<close>

definition parse_descriptor ::
  "bytes \<Rightarrow> error + (string \<times> string \<times> params) option" where
  "parse_descriptor s =
     (case decode s of
        Inl e \<Rightarrow> Inl e
      | Inr u \<Rightarrow>
          (case re_desc_match u of
             None \<Rightarrow> Inr None
           | Some (etype, nm, pstr) \<Rightarrow>
               (case params_loop Map.empty (re_params_findall pstr) of
                  Inl e \<Rightarrow> Inl e
                | Inr ps \<Rightarrow> Inr (Some (etype, nm, ps)))))"

text \<open>
  One match attempt of \<^verbatim>\<open>\d+:\d+\<close> at the start of \<open>s\<close>, and \<open>findall\<close> as above.
\<close>

definition re_dims_match :: "string \<Rightarrow> string option" where
  "re_dims_match s =
     (let a = takeWhile is_digit s; r = dropWhile is_digit s
      in if a = [] then None
         else (case r of
                 [] \<Rightarrow> None
               | c # r2 \<Rightarrow>
                   if c \<noteq> CHR 0x3A then None
                   else (let b = takeWhile is_digit r2
                         in if b = [] then None else Some (a @ [c] @ b))))"

lemma re_dims_match_length:
  "re_dims_match s = Some tok \<Longrightarrow> tok \<noteq> [] \<and> s \<noteq> []"
  by (auto simp: re_dims_match_def Let_def split: list.splits if_splits)

function re_dims_findall :: "string \<Rightarrow> string list" where
  "re_dims_findall s =
     (if s = [] then []
      else (case re_dims_match s of
              None \<Rightarrow> re_dims_findall (tl s)
            | Some tok \<Rightarrow> tok # re_dims_findall (drop (length tok) s)))"
  by pat_completeness auto
termination
  by (relation "measure length") (auto dest: re_dims_match_length)

declare re_dims_findall.simps [simp del]

text \<open>\<open>x.split(':')\<close>: cut at every colon.\<close>

fun split_colon :: "string \<Rightarrow> string list" where
  "split_colon [] = [[]]"
| "split_colon (c # cs) =
     (if c = CHR 0x3A then [] # split_colon cs
      else (case split_colon cs of
              [] \<Rightarrow> [[c]]
            | p # ps \<Rightarrow> (c # p) # ps))"

text \<open>
  \<open>int(s)\<close> on text: optional white space around an optional sign and decimal digits,
  where single underscores may stand between digits; ValueError otherwise.
\<close>

definition digit_val :: "char \<Rightarrow> nat" where
  "digit_val c = of_char c - 48"

definition digits_val :: "string \<Rightarrow> nat" where
  "digits_val ds = foldl (\<lambda>a c. 10 * a + digit_val c) 0 ds"

fun int_digits :: "string \<Rightarrow> bool" where
  "int_digits [] = False"
| "int_digits [c] = is_digit c"
| "int_digits (c # d # ds) =
     (is_digit c \<and> (if d = CHR ''_'' then int_digits ds else int_digits (d # ds)))"

definition py_int :: "string \<Rightarrow> error + int" where
  "py_int s =
     (let t = rev (dropWhile is_uspace (rev (dropWhile is_uspace s)));
          neg = (t \<noteq> [] \<and> hd t = CHR ''-'');
          ds = (if t \<noteq> [] \<and> (hd t = CHR ''-'' \<or> hd t = CHR ''+'') then tl t else t);
          v = digits_val (filter is_digit ds)
      in if int_digits ds then Inr (if neg then - int v else int v) else Inl ValueError)"

text \<open>\<open>'%d' % n\<close>: the decimal numeral of an integer.\<close>

function show_nat :: "nat \<Rightarrow> string" where
  "show_nat n =
     (if n < 10 then [char_of (48 + n)]
      else show_nat (n div 10) @ [char_of (48 + n mod 10)])"
  by pat_completeness auto
termination
  by (relation "measure id") auto

declare show_nat.simps [simp del]

definition show_int :: "int \<Rightarrow> string" where
  "show_int i = (if i < 0 then CHR ''-'' # show_nat (nat (- i)) else show_nat (nat i))"

subsection \<open>Typed arrays (the part of numpy the reader uses)\<close>

text \<open>
  \<open>np.dtype(dtype)\<close> for the values the \<open>dtype\<close> field of an entry can hold: \<open>None\<close>
  (numpy's default, float64) or a kind letter followed by \<open>'%d' % nbytes\<close>. The result
  is the kind letter and the item size. Floats exist with 2, 4, 8 and 16 bytes, signed
  integers with 1, 2, 4 and 8, complex numbers with 8, 16 and 32. The width of a byte
  string is kept in a C int: it wraps modulo \<open>2 ^ 32\<close> (so \<open>S4294967296\<close> has item size
  0), and a width that wraps to a negative number is refused. Every other text raises
  TypeError.
\<close>

type_synonym np_dtype = "char \<times> nat"

definition np_dtype :: "string option \<Rightarrow> error + np_dtype" where
  "np_dtype d =
     (case d of
        None \<Rightarrow> Inr (CHR ''f'', 8)
      | Some [] \<Rightarrow> Inl TypeError
      | Some (k # ds) \<Rightarrow>
          if ds = [] \<or> \<not> list_all is_digit ds then Inl TypeError
          else (let n = digits_val ds
                in if (k = CHR ''f'' \<and> n \<in> set [2, 4, 8, 16]) \<or>
                      (k = CHR ''i'' \<and> n \<in> set [1, 2, 4, 8]) \<or>
                      (k = CHR ''c'' \<and> n \<in> set [8, 16, 32])
                   then Inr (k, n)
                   else if k = CHR ''S'' \<and> n mod 4294967296 < 2147483648
                   then Inr (k, n mod 4294967296)
                   else Inl TypeError))"

text \<open>
  An array: its dtype, its shape and its items in row-major order. An item is the
  \<open>itemsize\<close> bytes it has in the file, most significant byte first; the conversion to
  the host's byte order (\<open>astype\<close>) changes how an item is stored, not its value.
\<close>

record ndarray =
  a_dtype :: np_dtype
  a_shape :: "nat list"
  a_items :: "bytes list"

function chunks :: "nat \<Rightarrow> 'a list \<Rightarrow> 'a list list" where
  "chunks n xs = (if n = 0 \<or> xs = [] then [] else take n xs # chunks n (drop n xs))"
  by pat_completeness auto
termination
  by (relation "measure (\<lambda>(n, xs). length xs)") auto

declare chunks.simps [simp del]

text \<open>
  \<open>np.fromfile(f, dtype=dt, count=count)\<close>: up to \<open>count\<close> items from the current
  position; when the file ends early, the complete items that are there.
\<close>

definition np_fromfile :: "fileobj \<Rightarrow> np_dtype \<Rightarrow> nat \<Rightarrow> (bytes list) io" where
  "np_fromfile f dt count =
     (if f_closed f then (Inl ValueError, f)
      else let raw = take (count * snd dt) (drop (f_pos f) (f_content f));
               k = length raw div snd dt
           in (Inr (chunks (snd dt) (take (k * snd dt) raw)),
               f\<lparr>f_pos := f_pos f + length raw\<rparr>))"

definition read_array :: "fileobj \<Rightarrow> string option \<Rightarrow> ndarray io" where
  "read_array f dtype =
     (case np_dtype dtype of
        Inl e \<Rightarrow> (Inl e, f)
      | Inr dt \<Rightarrow>
          (case read_block_size f of
             (Inl e, f1) \<Rightarrow> (Inl e, f1)
           | (Inr nbytes, f1) \<Rightarrow>
               if snd dt = 0 then (Inl ZeroDivisionError, f1)
               else (case np_fromfile f1 dt (nbytes div snd dt) of
                       (Inl e, f2) \<Rightarrow> (Inl e, f2)
                     | (Inr items, f2) \<Rightarrow>
                         (case read_block_size f2 of
                            (Inl e, f3) \<Rightarrow> (Inl e, f3)
                          | (Inr nbytes2, f3) \<Rightarrow>
                              if nbytes \<noteq> nbytes2
                              then (Inl (IOError ''error reading array''), f3)
                              else (Inr \<lparr>a_dtype = dt, a_shape = [length items],
                                         a_items = items\<rparr>, f3)))))"

text \<open>
  \<open>a.reshape(shape)\<close>: the extents must multiply to the number of items; one extent
  may be negative and is then the unknown one, inferred from the others. Everything
  else raises ValueError.
\<close>

definition np_reshape :: "ndarray \<Rightarrow> int list \<Rightarrow> error + ndarray" where
  "np_reshape a sh =
     (let n = length (a_items a);
          known = filter (\<lambda>d. 0 \<le> d) sh;
          p = nat (prod_list known)
      in if length known = length sh then
           (if p = n then Inr (a\<lparr>a_shape := map nat sh\<rparr>) else Inl ValueError)
         else if length known + 1 = length sh \<and> p \<noteq> 0 \<and> n mod p = 0 then
           Inr (a\<lparr>a_shape := map (\<lambda>d. if d < 0 then n div p else nat d) sh\<rparr>)
         else Inl ValueError)"

text \<open>
  Taking one item out of a byte-string array (\<open>a[0]\<close>, iteration) gives it without its
  trailing NUL bytes.
\<close>

definition np_bytes :: "bytes \<Rightarrow> bytes" where
  "np_bytes x = rev (dropWhile (\<lambda>c. c = CHR 0x00) (rev x))"

subsection \<open>Entry model\<close>

record Entry =
  pos :: nat
  type :: string
  name :: string
  params :: params
  dtype :: "string option"
  shape :: "int list option"

text \<open>What \<open>Entry.data\<close> returns: a numpy scalar, an array, a string or a list of strings.\<close>

datatype pyvalue =
    NumScalar np_dtype bytes
  | NdArray ndarray
  | Str bytes
  | StrList "bytes list"

text \<open>
  The \<open>data\<close> property. It works on the file object the entry refers to, which is the
  container's; the entry itself is handed back next to the result and the file, so that
  what a call does to either can be stated. Calling \<open>rstrip\<close> on an item that is not a
  byte string raises AttributeError.
\<close>

definition data :: "Entry \<Rightarrow> fileobj \<Rightarrow> (error + pyvalue) \<times> Entry \<times> fileobj" where
  "data self fd =
     (case f_seek (pos self) fd of
        (Inl e, f1) \<Rightarrow> (Inl e, self, f1)
      | (Inr _, f1) \<Rightarrow>
          (case read_array f1 (dtype self) of
             (Inl e, f2) \<Rightarrow> (Inl e, self, f2)
           | (Inr a, f2) \<Rightarrow>
               if type self \<noteq> ''character'' then
                 (case shape self of
                    Some sh \<Rightarrow>
                      (case np_reshape a sh of
                         Inl e \<Rightarrow> (Inl e, self, f2)
                       | Inr a' \<Rightarrow> (Inr (NdArray a'), self, f2))
                  | None \<Rightarrow>
                      (case a_items a of
                         [] \<Rightarrow> (Inl IndexError, self, f2)
                       | x # _ \<Rightarrow> (Inr (NumScalar (a_dtype a) x), self, f2)))
               else
                 (case shape self of
                    None \<Rightarrow>
                      (case a_items a of
                         [] \<Rightarrow> (Inl IndexError, self, f2)
                       | x # _ \<Rightarrow>
                           if fst (a_dtype a) = CHR ''S''
                           then (Inr (Str (rstrip (np_bytes x))), self, f2)
                           else (Inl AttributeError, self, f2))
                  | Some sh \<Rightarrow>
                      if length sh = 1 then
                        (if fst (a_dtype a) = CHR ''S'' \<or> a_items a = []
                         then (Inr (StrList (map (\<lambda>s. rstrip (np_bytes s)) (a_items a))),
                               self, f2)
                         else (Inl AttributeError, self, f2))
                      else
                        (case np_reshape a sh of
                           Inl e \<Rightarrow> (Inl e, self, f2)
                         | Inr a' \<Rightarrow> (Inr (NdArray a'), self, f2)))))"

subsection \<open>Boxes, datasets and name lookup\<close>

record Box =
  box_pos :: nat
  box_params :: params
  box_entries :: "Entry list"

record DataSet =
  ds_pos :: nat
  ds_params :: params
  ds_entries :: "Entry list"
  ds_box :: "Box list"

text \<open>\<open>_EntryMapping.__getitem__\<close>: the first entry with the name, KeyError if none.\<close>

fun getitem :: "Entry list \<Rightarrow> string \<Rightarrow> error + Entry" where
  "getitem [] key = Inl (KeyError key)"
| "getitem (e # es) key = (if name e = key then Inr e else getitem es key)"

subsection \<open>Tree builder\<close>

text \<open>Lines 171-181 of \<open>_read_entry\<close>: the element type from the kind and \<open>b\<close>.\<close>

definition entry_dtype :: "string \<Rightarrow> params \<Rightarrow> error + string option" where
  "entry_dtype etype ps =
     (case ps ''b'' of
        None \<Rightarrow> Inr None
      | Some b \<Rightarrow>
          (case py_int b of
             Inl e \<Rightarrow> Inl e
           | Inr nbytes \<Rightarrow>
               if etype = ''real'' then Inr (Some (CHR ''f'' # show_int nbytes))
               else if etype = ''integer'' then Inr (Some (CHR ''i'' # show_int nbytes))
               else if etype = ''character'' then Inr (Some (CHR ''S'' # show_int nbytes))
               else if etype = ''complex'' then Inr (Some (CHR ''c'' # show_int nbytes))
               else Inr None))"

text \<open>
  Lines 182-188: the loop over the \<open>lo:hi\<close> pairs found in the text of \<open>d\<close>, appending
  \<open>hi - lo + 1\<close> to \<open>fshape\<close>, and the reversal at the end.
\<close>

fun fshape_loop :: "int list \<Rightarrow> string list \<Rightarrow> error + int list" where
  "fshape_loop fshape [] = Inr fshape"
| "fshape_loop fshape (x # xs) =
     (case split_colon x of
        [x1, x2] \<Rightarrow>
          (case py_int x2 of
             Inl e \<Rightarrow> Inl e
           | Inr hi \<Rightarrow>
               (case py_int x1 of
                  Inl e \<Rightarrow> Inl e
                | Inr lo \<Rightarrow> fshape_loop (fshape @ [hi - lo + 1]) xs))
      | _ \<Rightarrow> Inl ValueError)"

definition dims_shape :: "string \<Rightarrow> error + int list" where
  "dims_shape d =
     (case fshape_loop [] (re_dims_findall d) of
        Inl e \<Rightarrow> Inl e
      | Inr fshape \<Rightarrow> Inr (rev fshape))"

definition entry_shape :: "params \<Rightarrow> error + int list option" where
  "entry_shape ps =
     (case ps ''d'' of
        None \<Rightarrow> Inr None
      | Some d \<Rightarrow>
          (case dims_shape d of
             Inl e \<Rightarrow> Inl e
           | Inr sh \<Rightarrow> Inr (Some sh)))"

text \<open>
  \<open>_read_entry\<close>. Unpacking the \<open>None\<close> of a text that is no descriptor raises
  TypeError.
\<close>

definition read_entry :: "fileobj \<Rightarrow> Entry io" where
  "read_entry f =
     (case read_string f of
        (Inl e, f1) \<Rightarrow> (Inl e, f1)
      | (Inr s, f1) \<Rightarrow>
          (case parse_descriptor s of
             Inl e \<Rightarrow> (Inl e, f1)
           | Inr None \<Rightarrow> (Inl TypeError, f1)
           | Inr (Some (etype, nm, ps)) \<Rightarrow>
               if etype = ''table'' then (Inl UnsupportedEntryKind, f1)
               else (case f_tell f1 of
                       (Inl e, f2) \<Rightarrow> (Inl e, f2)
                     | (Inr p, f2) \<Rightarrow>
                         (case entry_dtype etype ps of
                            Inl e \<Rightarrow> (Inl e, f2)
                          | Inr dt \<Rightarrow>
                              (case entry_shape ps of
                                 Inl e \<Rightarrow> (Inl e, f2)
                               | Inr sh \<Rightarrow>
                                   (Inr \<lparr>pos = p, type = etype, name = nm, params = ps,
                                         dtype = dt, shape = sh\<rparr>, f2))))))"

lemma read_string_loop_adv:
  "read_string_loop s f = (Inr r, f') \<Longrightarrow> f' = f \<or> f_adv f f'"
proof (induction s f rule: read_string_loop.induct)
  case (1 s f)
  show ?case
  proof (cases "endswith (rstrip s) (CHR ''&'')")
    case False
    with "1.prems" show ?thesis
      by (subst (asm) read_string_loop.simps) simp
  next
    case True
    with "1.prems" obtain d f1 where
      rb: "read_block f = (Inr d, f1)"
      and rest: "read_string_loop (butlast (rstrip s) @ d) f1 = (Inr r, f')"
      by (subst (asm) read_string_loop.simps) (auto split: sum.splits prod.splits)
    from "1.IH" [OF True rb [symmetric] refl rest] read_block_adv [OF rb] show ?thesis
      by (auto intro: f_adv_trans)
  qed
qed

lemma read_string_adv: "read_string f = (Inr r, f') \<Longrightarrow> f_adv f f'"
  by (auto simp: read_string_def split: sum.splits prod.splits
      dest!: read_block_adv read_string_loop_adv intro: f_adv_trans)

lemma read_entry_adv: "read_entry f = (Inr e, f') \<Longrightarrow> f_adv f f'"
  by (auto simp: read_entry_def f_tell_def
      split: sum.splits prod.splits option.splits if_splits dest!: read_string_adv)

text \<open>
  \<open>_read_box_entries\<close>: the loop, with the list built so far as an argument.
\<close>

function read_box_entries_loop :: "Entry list \<Rightarrow> fileobj \<Rightarrow> (Entry list) io" where
  "read_box_entries_loop box f =
     (case read_entry f of
        (Inl e, f1) \<Rightarrow> (Inl e, f1)
      | (Inr entry, f1) \<Rightarrow>
          if type entry = ''label'' \<and> name entry = ''endbox'' then (Inr box, f1)
          else (case skip_block f1 of
                  (Inl e, f2) \<Rightarrow> (Inl e, f2)
                | (Inr _, f2) \<Rightarrow> read_box_entries_loop (box @ [entry]) f2))"
  by pat_completeness auto
termination
  by (relation "measure (\<lambda>(box, f). length (f_content f) - f_pos f)")
     (auto dest!: read_entry_adv [OF sym] skip_block_adv [OF sym] intro!: f_adv_measure
       intro: f_adv_trans)

declare read_box_entries_loop.simps [simp del]

definition read_box_entries :: "fileobj \<Rightarrow> (Entry list) io" where
  "read_box_entries f = read_box_entries_loop [] f"

lemma read_box_entries_loop_adv:
  "read_box_entries_loop box f = (Inr r, f') \<Longrightarrow> f_adv f f'"
proof (induction box f rule: read_box_entries_loop.induct)
  case (1 box f)
  from "1.prems" obtain entry f1 where re: "read_entry f = (Inr entry, f1)"
    by (subst (asm) read_box_entries_loop.simps) (auto split: sum.splits prod.splits)
  show ?case
  proof (cases "type entry = ''label'' \<and> name entry = ''endbox''")
    case True
    with "1.prems" re have "f' = f1"
      by (subst (asm) read_box_entries_loop.simps) simp
    with read_entry_adv [OF re] show ?thesis by simp
  next
    case False
    with "1.prems" re obtain u f2 where sk: "skip_block f1 = (Inr u, f2)"
      and rest: "read_box_entries_loop (box @ [entry]) f2 = (Inr r, f')"
      by (subst (asm) read_box_entries_loop.simps) (auto split: sum.splits prod.splits)
    from "1.IH" [OF re [symmetric] refl False sk [symmetric] refl rest]
      read_entry_adv [OF re] skip_block_adv [OF sk]
    show ?thesis by (blast intro: f_adv_trans)
  qed
qed

text \<open>
  \<open>_read_dataset_entries\<close>. Its list holds boxes and entries. \<open>Box(pos=f.tell(), ...)\<close>
  takes the position before the entries of the box are read. A label that is neither
  \<open>enddataset\<close> nor \<open>box\<close> takes neither branch of the inner \<open>if\<close>: the loop goes on
  with the list as it is and without skipping a record.
\<close>

datatype ds_item = DsBox Box | DsEntry Entry

function read_dataset_entries_loop :: "ds_item list \<Rightarrow> fileobj \<Rightarrow> (ds_item list) io" where
  "read_dataset_entries_loop entries f =
     (case read_entry f of
        (Inl e, f1) \<Rightarrow> (Inl e, f1)
      | (Inr entry, f1) \<Rightarrow>
          if type entry = ''label'' then
            (if name entry = ''enddataset'' then (Inr entries, f1)
             else if name entry = ''box'' then
               (case f_tell f1 of
                  (Inl e, f2) \<Rightarrow> (Inl e, f2)
                | (Inr p, f2) \<Rightarrow>
                    (case read_box_entries f2 of
                       (Inl e, f3) \<Rightarrow> (Inl e, f3)
                     | (Inr es, f3) \<Rightarrow>
                         read_dataset_entries_loop
                           (entries @ [DsBox \<lparr>box_pos = p, box_params = params entry,
                                               box_entries = es\<rparr>]) f3))
             else read_dataset_entries_loop entries f1)
          else (case skip_block f1 of
                  (Inl e, f2) \<Rightarrow> (Inl e, f2)
                | (Inr _, f2) \<Rightarrow> read_dataset_entries_loop (entries @ [DsEntry entry]) f2))"
  by pat_completeness auto
termination
proof (relation "measure (\<lambda>(entries, f). length (f_content f) - f_pos f)", goal_cases)
  case 1
  show ?case by simp
next
  case (2 entries f x f1 entry y f2 p z f3 es)
  from 2 have "f_adv f f1" "f2 = f1" "f_adv f2 f3"
    by (auto simp: f_tell_def read_box_entries_def split: if_splits
        dest!: read_entry_adv [OF sym] read_box_entries_loop_adv [OF sym])
  then show ?case
    by (auto intro!: f_adv_measure intro: f_adv_trans)
next
  case (3 entries f x f1 entry)
  then show ?case
    by (auto dest!: read_entry_adv [OF sym] intro!: f_adv_measure)
next
  case (4 entries f x f1 entry y f2 u)
  then show ?case
    by (auto dest!: read_entry_adv [OF sym] skip_block_adv [OF sym] intro!: f_adv_measure
        intro: f_adv_trans)
qed

declare read_dataset_entries_loop.simps [simp del]

definition read_dataset_entries :: "fileobj \<Rightarrow> (ds_item list) io" where
  "read_dataset_entries f = read_dataset_entries_loop [] f"

lemma read_dataset_entries_loop_adv:
  "read_dataset_entries_loop entries f = (Inr r, f') \<Longrightarrow> f_adv f f'"
proof (induction entries f rule: read_dataset_entries_loop.induct)
  case (1 entries f)
  note prems = "1.prems" [unfolded read_dataset_entries_loop.simps [of entries f]]
  from prems obtain entry f1 where re: "read_entry f = (Inr entry, f1)"
    by (auto split: sum.splits prod.splits)
  note a1 = read_entry_adv [OF re]
  show ?case
  proof (cases "type entry = ''label''")
    case False
    with prems re obtain u f2 where sk: "skip_block f1 = (Inr u, f2)"
      and rest: "read_dataset_entries_loop (entries @ [DsEntry entry]) f2 = (Inr r, f')"
      by (auto split: sum.splits prod.splits)
    from "1.IH"(3) [OF re [symmetric] refl False sk [symmetric] refl rest]
      a1 skip_block_adv [OF sk]
    show ?thesis by (blast intro: f_adv_trans)
  next
    case lab: True
    show ?thesis
    proof (cases "name entry = ''enddataset''")
      case True
      with prems re lab have "f' = f1" by simp
      with a1 show ?thesis by simp
    next
      case notend: False
      show ?thesis
      proof (cases "name entry = ''box''")
        case False
        with prems re lab notend
        have rest: "read_dataset_entries_loop entries f1 = (Inr r, f')" by simp
        from "1.IH"(2) [OF re [symmetric] refl lab notend False rest] a1
        show ?thesis by (blast intro: f_adv_trans)
      next
        case True
        with prems re lab notend obtain p f2 es f3 where
          tl: "f_tell f1 = (Inr p, f2)" and rb: "read_box_entries f2 = (Inr es, f3)"
          and rest: "read_dataset_entries_loop
                       (entries @ [DsBox \<lparr>box_pos = p, box_params = params entry,
                                           box_entries = es\<rparr>]) f3 = (Inr r, f')"
          by (auto split: sum.splits prod.splits)
        from tl have "f2 = f1" by (auto simp: f_tell_def split: if_splits)
        moreover from rb have "f_adv f2 f3"
          by (auto simp: read_box_entries_def dest: read_box_entries_loop_adv)
        moreover note "1.IH"(1) [OF re [symmetric] refl lab notend True tl [symmetric] refl
            rb [symmetric] refl rest] a1
        ultimately show ?thesis by (blast intro: f_adv_trans)
      qed
    qed
  qed
qed

text \<open>
  \<open>_read_file_entries\<close>. Its list holds datasets and entries. Only \<open>_read_entry\<close> is
  inside the \<open>try\<close>: an EOFError from it ends the loop, one from
  \<open>_read_dataset_entries\<close> or \<open>_skip_block\<close> is raised. \<open>DataSet(pos=f.tell(), ...)\<close>
  is built after the body of the dataset has been read.
\<close>

datatype file_item = FDataSet DataSet | FEntry Entry

fun ds_boxes_of :: "ds_item list \<Rightarrow> Box list" where
  "ds_boxes_of [] = []"
| "ds_boxes_of (DsBox b # xs) = b # ds_boxes_of xs"
| "ds_boxes_of (DsEntry e # xs) = ds_boxes_of xs"

fun ds_entries_of :: "ds_item list \<Rightarrow> Entry list" where
  "ds_entries_of [] = []"
| "ds_entries_of (DsBox b # xs) = ds_entries_of xs"
| "ds_entries_of (DsEntry e # xs) = e # ds_entries_of xs"

function read_file_entries_loop :: "file_item list \<Rightarrow> fileobj \<Rightarrow> (file_item list) io" where
  "read_file_entries_loop entries f =
     (case read_entry f of
        (Inl e, f1) \<Rightarrow> if e = EOFError then (Inr entries, f1) else (Inl e, f1)
      | (Inr entry, f1) \<Rightarrow>
          if type entry = ''label'' \<and> name entry = ''dataset'' then
            (case read_dataset_entries f1 of
               (Inl e, f2) \<Rightarrow> (Inl e, f2)
             | (Inr items, f2) \<Rightarrow>
                 (case f_tell f2 of
                    (Inl e, f3) \<Rightarrow> (Inl e, f3)
                  | (Inr p, f3) \<Rightarrow>
                      read_file_entries_loop
                        (entries @ [FDataSet \<lparr>ds_pos = p, ds_params = params entry,
                                              ds_entries = ds_entries_of items,
                                              ds_box = ds_boxes_of items\<rparr>]) f3))
          else (case skip_block f1 of
                  (Inl e, f2) \<Rightarrow> (Inl e, f2)
                | (Inr _, f2) \<Rightarrow> read_file_entries_loop (entries @ [FEntry entry]) f2))"
  by pat_completeness auto
termination
proof (relation "measure (\<lambda>(entries, f). length (f_content f) - f_pos f)", goal_cases)
  case 1
  show ?case by simp
next
  case (2 entries f x f1 entry y f2 items z f3 p)
  from 2 have "f_adv f f1" "f_adv f1 f2" "f3 = f2"
    by (auto simp: f_tell_def read_dataset_entries_def split: if_splits
        dest!: read_entry_adv [OF sym] read_dataset_entries_loop_adv [OF sym])
  then show ?case
    by (auto intro!: f_adv_measure intro: f_adv_trans)
next
  case (3 entries f x f1 entry y f2 u)
  then show ?case
    by (auto dest!: read_entry_adv [OF sym] skip_block_adv [OF sym] intro!: f_adv_measure
        intro: f_adv_trans)
qed

declare read_file_entries_loop.simps [simp del]

definition read_file_entries :: "fileobj \<Rightarrow> (file_item list) io" where
  "read_file_entries f = read_file_entries_loop [] f"

subsection \<open>Container\<close>

definition read_file_header :: "fileobj \<Rightarrow> params io" where
  "read_file_header f =
     (case read_string f of
        (Inl e, f1) \<Rightarrow> (Inl e, f1)
      | (Inr header_string, f1) \<Rightarrow>
          (case parse_descriptor header_string of
             Inl e \<Rightarrow> (Inl e, f1)
           | Inr None \<Rightarrow> (Inl TypeError, f1)
           | Inr (Some (ff, uio, header)) \<Rightarrow>
               if ff \<noteq> ''fileform'' \<or> uio \<noteq> ''uio''
               then (Inl (IOError ''unknown file format''), f1)
               else (Inr header, f1)))"

record File =
  fd :: fileobj
  header :: params
  entries :: "Entry list"
  dataset :: "DataSet list"

fun file_datasets_of :: "file_item list \<Rightarrow> DataSet list" where
  "file_datasets_of [] = []"
| "file_datasets_of (FDataSet d # xs) = d # file_datasets_of xs"
| "file_datasets_of (FEntry e # xs) = file_datasets_of xs"

fun file_entries_of :: "file_item list \<Rightarrow> Entry list" where
  "file_entries_of [] = []"
| "file_entries_of (FDataSet d # xs) = file_entries_of xs"
| "file_entries_of (FEntry e # xs) = e # file_entries_of xs"

text \<open>
  \<open>File.__init__\<close> on a file with the given bytes. When it raises there is no
  container.
\<close>

definition File_init :: "bytes \<Rightarrow> error + File" where
  "File_init bs =
     (case f_read (4 + 12) (open_rb bs) of
        (Inl e, f1) \<Rightarrow> Inl e
      | (Inr d, f1) \<Rightarrow>
          if drop 4 d \<noteq> ''fileform uio'' then Inl BadMagic
          else (case f_seek 0 f1 of
                  (Inl e, f2) \<Rightarrow> Inl e
                | (Inr _, f2) \<Rightarrow>
                    (case read_file_header f2 of
                       (Inl e, f3) \<Rightarrow> Inl e
                     | (Inr h, f3) \<Rightarrow>
                         (case read_file_entries f3 of
                            (Inl e, f4) \<Rightarrow> Inl e
                          | (Inr items, f4) \<Rightarrow>
                              Inr \<lparr>fd = f4, header = h, entries = file_entries_of items,
                                   dataset = file_datasets_of items\<rparr>))))"

text \<open>\<open>File.close\<close>, name lookup on the container, and \<open>data\<close> of one of its entries.\<close>

definition File_close :: "File \<Rightarrow> File" where
  "File_close F = F\<lparr>fd := f_close (fd F)\<rparr>"

definition File_getitem :: "File \<Rightarrow> string \<Rightarrow> error + Entry" where
  "File_getitem F key = getitem (entries F) key"

definition Entry_data :: "File \<Rightarrow> Entry \<Rightarrow> (error + pyvalue) \<times> Entry \<times> File" where
  "Entry_data F e = (case data e (fd F) of (r, e', f') \<Rightarrow> (r, e', F\<lparr>fd := f'\<rparr>))"

subsection \<open>Dimension texts as the spec describes them\<close>






subsection \<open>IEEE doubles and an example file\<close>

text \<open>
  The value of an 8-byte float item (IEEE 754 binary64, most significant byte first):
  sign, 11 bits of exponent, 52 bits of fraction. Infinities and NaNs have no value
  here.
\<close>

definition f8_value :: "bytes \<Rightarrow> real option" where
  "f8_value x =
     (let n = uint_from_bytes x; s = n div 2 ^ 63; ex = n div 2 ^ 52 mod 2048; m = n mod 2 ^ 52
      in if ex = 2047 \<or> length x \<noteq> 8 then None
         else Some ((if s = 1 then - 1 else 1) *
                    (if ex = 0 then real m / 2 ^ 52 * 2 powi (- 1022)
                     else (1 + real m / 2 ^ 52) * 2 powi (int ex - 1023))))"

text \<open>The doubles 1.0, 2.0 and 3.0.\<close>

definition f8_1 :: bytes where
  "f8_1 = [CHR 0x3F, CHR 0xF0, CHR 0x00, CHR 0x00, CHR 0x00, CHR 0x00, CHR 0x00, CHR 0x00]"

definition f8_2 :: bytes where
  "f8_2 = [CHR 0x40, CHR 0x00, CHR 0x00, CHR 0x00, CHR 0x00, CHR 0x00, CHR 0x00, CHR 0x00]"

definition f8_3 :: bytes where
  "f8_3 = [CHR 0x40, CHR 0x08, CHR 0x00, CHR 0x00, CHR 0x00, CHR 0x00, CHR 0x00, CHR 0x00]"

text \<open>
  The stream of the end-to-end scenario: the header record, one descriptor record, its
  payload record of three doubles, and the end of the stream. Next to it the file object
  on this stream at a position, and the entry and the container that the reader builds.
\<close>

definition example_stream :: bytes where
  "example_stream =
     uint_to_bytes 17 @ ''fileform uio test'' @ uint_to_bytes 17 @
     uint_to_bytes 19 @ ''real name b=8 d=1:3'' @ uint_to_bytes 19 @
     uint_to_bytes 24 @ f8_1 @ f8_2 @ f8_3 @ uint_to_bytes 24"

definition example_fd :: "nat \<Rightarrow> fileobj" where
  "example_fd p = \<lparr>f_content = example_stream, f_pos = p, f_closed = False\<rparr>"

definition example_entry :: Entry where
  "example_entry = \<lparr>pos = 52, type = ''real'', name = ''name'',
     params = [''b'' \<mapsto> ''8'', ''d'' \<mapsto> ''1:3''], dtype = Some ''f8'', shape = Some [3]\<rparr>"

definition example_file :: File where
  "example_file = \<lparr>fd = example_fd 84, header = Map.empty, entries = [example_entry],
     dataset = []\<rparr>"

subsection \<open>A file with a table\<close>

text \<open>
  A header record, the label that opens a dataset, the label that opens a box, and a
  descriptor of kind \<open>table\<close>; and the file object on this stream at a position.
\<close>

definition table_stream :: bytes where
  "table_stream =
     uint_to_bytes 12 @ ''fileform uio'' @ uint_to_bytes 12 @
     uint_to_bytes 13 @ ''label dataset'' @ uint_to_bytes 13 @
     uint_to_bytes 9 @ ''label box'' @ uint_to_bytes 9 @
     uint_to_bytes 11 @ ''table t b=4'' @ uint_to_bytes 11"

definition table_fd :: "nat \<Rightarrow> fileobj" where
  "table_fd p = \<lparr>f_content = table_stream, f_pos = p, f_closed = False\<rparr>"

subsection \<open>Files that end early\<close>

text \<open>
  The example file cut off behind its descriptor record, so that the payload record is
  missing; and the file with the table cut off after \<open>n\<close> bytes (behind the label of
  the dataset for 41, behind the label of the box for 58).
\<close>

definition cut_stream :: bytes where
  "cut_stream = take 52 example_stream"

definition cut_fd :: "nat \<Rightarrow> fileobj" where
  "cut_fd p = \<lparr>f_content = cut_stream, f_pos = p, f_closed = False\<rparr>"

definition cut_table_fd :: "nat \<Rightarrow> nat \<Rightarrow> fileobj" where
  "cut_table_fd n p = \<lparr>f_content = take n table_stream, f_pos = p, f_closed = False\<rparr>"

subsection \<open>Descriptors with two dimension pairs\<close>



subsection \<open>Files with a label of another name\<close>

text \<open>
  A dataset whose body holds the label \<open>foo\<close>; and a file with the same label at file
  scope, followed by a record.
\<close>

definition label_stream :: bytes where
  "label_stream =
     uint_to_bytes 12 @ ''fileform uio'' @ uint_to_bytes 12 @
     uint_to_bytes 13 @ ''label dataset'' @ uint_to_bytes 13 @
     uint_to_bytes 9 @ ''label foo'' @ uint_to_bytes 9 @
     uint_to_bytes 16 @ ''label enddataset'' @ uint_to_bytes 16"

definition label_fd :: "nat \<Rightarrow> fileobj" where
  "label_fd p = \<lparr>f_content = label_stream, f_pos = p, f_closed = False\<rparr>"

definition top_label_stream :: bytes where
  "top_label_stream =
     uint_to_bytes 12 @ ''fileform uio'' @ uint_to_bytes 12 @
     uint_to_bytes 9 @ ''label foo'' @ uint_to_bytes 9 @
     uint_to_bytes 4 @ ''abcd'' @ uint_to_bytes 4"

definition top_label_fd :: "nat \<Rightarrow> fileobj" where
  "top_label_fd p = \<lparr>f_content = top_label_stream, f_pos = p, f_closed = False\<rparr>"

definition label_foo :: "nat \<Rightarrow> Entry" where
  "label_foo p = \<lparr>pos = p, type = ''label'', name = ''foo'', params = Map.empty,
     dtype = None, shape = None\<rparr>"

subsection \<open>Where the loops read descriptors\<close>

text \<open>
  \<open>box_reads f g\<close>: the box loop started with the file at \<open>f\<close> gets, pass by pass, to
  call \<open>_read_entry\<close> with the file at \<open>g\<close>. Likewise for the dataset loop and the
  file loop, where the call may also be one of a loop inside (of a box in the dataset,
  of a dataset in the file). The rules follow the branches of the three loops.
\<close>

inductive box_reads :: "fileobj \<Rightarrow> fileobj \<Rightarrow> bool" where
  box_here: "box_reads f f"
| box_next:
    "read_entry f = (Inr entry, f1) \<Longrightarrow> \<not> (type entry = ''label'' \<and> name entry = ''endbox'') \<Longrightarrow>
     skip_block f1 = (Inr u, f2) \<Longrightarrow> box_reads f2 g \<Longrightarrow> box_reads f g"

inductive dataset_reads :: "fileobj \<Rightarrow> fileobj \<Rightarrow> bool" where
  ds_here: "dataset_reads f f"
| ds_next:
    "read_entry f = (Inr entry, f1) \<Longrightarrow> type entry \<noteq> ''label'' \<Longrightarrow>
     skip_block f1 = (Inr u, f2) \<Longrightarrow> dataset_reads f2 g \<Longrightarrow> dataset_reads f g"
| ds_label:
    "read_entry f = (Inr entry, f1) \<Longrightarrow> type entry = ''label'' \<Longrightarrow>
     name entry \<noteq> ''enddataset'' \<Longrightarrow> name entry \<noteq> ''box'' \<Longrightarrow>
     dataset_reads f1 g \<Longrightarrow> dataset_reads f g"
| ds_in_box:
    "read_entry f = (Inr entry, f1) \<Longrightarrow> type entry = ''label'' \<Longrightarrow> name entry = ''box'' \<Longrightarrow>
     box_reads f1 g \<Longrightarrow> dataset_reads f g"
| ds_after_box:
    "read_entry f = (Inr entry, f1) \<Longrightarrow> type entry = ''label'' \<Longrightarrow> name entry = ''box'' \<Longrightarrow>
     read_box_entries f1 = (Inr es, f2) \<Longrightarrow> dataset_reads f2 g \<Longrightarrow> dataset_reads f g"

inductive file_reads :: "fileobj \<Rightarrow> fileobj \<Rightarrow> bool" where
  file_here: "file_reads f f"
| file_next:
    "read_entry f = (Inr entry, f1) \<Longrightarrow> \<not> (type entry = ''label'' \<and> name entry = ''dataset'') \<Longrightarrow>
     skip_block f1 = (Inr u, f2) \<Longrightarrow> file_reads f2 g \<Longrightarrow> file_reads f g"
| file_in_dataset:
    "read_entry f = (Inr entry, f1) \<Longrightarrow> type entry = ''label'' \<Longrightarrow>
     name entry = ''dataset'' \<Longrightarrow> dataset_reads f1 g \<Longrightarrow> file_reads f g"
| file_after_dataset:
    "read_entry f = (Inr entry, f1) \<Longrightarrow> type entry = ''label'' \<Longrightarrow>
     name entry = ''dataset'' \<Longrightarrow> read_dataset_entries f1 = (Inr items, f2) \<Longrightarrow>
     file_reads f2 g \<Longrightarrow> file_reads f g"

text \<open>
  A file in which a record with the text of a table descriptor stands behind a label
  at file scope.
\<close>

definition skipped_table_stream :: bytes where
  "skipped_table_stream =
     uint_to_bytes 12 @ ''fileform uio'' @ uint_to_bytes 12 @
     uint_to_bytes 9 @ ''label foo'' @ uint_to_bytes 9 @
     uint_to_bytes 11 @ ''table t b=4'' @ uint_to_bytes 11"

definition skipped_table_fd :: "nat \<Rightarrow> fileobj" where
  "skipped_table_fd p = \<lparr>f_content = skipped_table_stream, f_pos = p, f_closed = False\<rparr>"

subsection \<open>Files with character entries\<close>










section \<open>Properties\<close>

subsection \<open>Record framing\<close>

lemma uint_roundtrip: "n < 2 ^ 32 \<Longrightarrow> uint_from_bytes (uint_to_bytes n) = n"
proof -
  assume "n < 2 ^ 32"
  then have a: "n div 16777216 < 256" by simp
  have b: "n div 65536 = (n div 16777216) * 256 + n div 65536 mod 256"
    using div_mult2_eq [of n 65536 256] by (simp add: div_mult_mod_eq mult.commute)
  have c: "n div 256 = (n div 65536) * 256 + n div 256 mod 256"
    using div_mult2_eq [of n 256 256] by (simp add: mult.commute)
  have d: "n = (n div 256) * 256 + n mod 256" by simp
  have "uint_from_bytes (uint_to_bytes n) =
      ((n div 16777216 * 256 + n div 65536 mod 256) * 256 + n div 256 mod 256) * 256 + n mod 256"
    using a by (simp add: uint_from_bytes_def uint_to_bytes_def algebra_simps)
  also have "\<dots> = n" using b c d by simp
  finally show ?thesis .
qed

lemma length_uint_to_bytes [simp]: "length (uint_to_bytes n) = 4"
  by (simp add: uint_to_bytes_def)

lemma read_block_size_at:
  assumes "\<not> f_closed f" and "f_content f = pre @ uint_to_bytes n @ rest"
    and "f_pos f = length pre" and "n < 2 ^ 32"
  shows "read_block_size f = (Inr n, f\<lparr>f_pos := length pre + 4\<rparr>)"
  using assms by (simp add: read_block_size_def f_read_def uint_roundtrip)

lemma read_block_size_eof:
  assumes "\<not> f_closed f" and "length (f_content f) - f_pos f < 4"
  shows "read_block_size f = (Inl EOFError, f\<lparr>f_pos := f_pos f + (length (f_content f) - f_pos f)\<rparr>)"
  using assms by (simp add: read_block_size_def f_read_def Let_def)

text \<open>
  C3. A record lies at the position of the file: a leading length word \<open>n1\<close>, \<open>n1\<close>
  payload bytes and a trailing length word \<open>n2\<close> that differs from \<open>n1\<close>. Then
  \<open>_read_block\<close> and \<open>_skip_block\<close> both raise the IOError of a record length mismatch;
  the result is the exception, so no payload bytes reach the caller.
\<close>

theorem record_length_mismatch:
  assumes "\<not> f_closed f"
    and "f_content f = pre @ uint_to_bytes n1 @ payload @ uint_to_bytes n2 @ rest"
    and "f_pos f = length pre" and "length payload = n1"
    and "n1 < 2 ^ 32" and "n2 < 2 ^ 32" and "n1 \<noteq> n2"
  shows "fst (read_block f) = Inl (IOError ''error reading block'') \<and>
         fst (skip_block f) = Inl (IOError ''error skipping block'') \<and>
         RecordLengthMismatch (IOError ''error reading block'') \<and>
         RecordLengthMismatch (IOError ''error skipping block'')"
proof -
  let ?f1 = "f\<lparr>f_pos := length pre + 4\<rparr>"
  let ?f2 = "f\<lparr>f_pos := length pre + 4 + n1\<rparr>"
  have a: "read_block_size f = (Inr n1, ?f1)"
    using assms by (intro read_block_size_at) auto
  have b: "f_read n1 ?f1 = (Inr payload, ?f2)"
    using assms by (simp add: f_read_def)
  have b': "f_seek_cur n1 ?f1 = (Inr (), ?f2)"
    using assms by (simp add: f_seek_cur_def)
  have c: "read_block_size ?f2 =
      (Inr n2, ?f2\<lparr>f_pos := length (pre @ uint_to_bytes n1 @ payload) + 4\<rparr>)"
    using assms by (intro read_block_size_at [where rest = rest]) auto
  show ?thesis
    using assms(7) by (simp add: read_block_def skip_block_def a b b' c RecordLengthMismatch_def)
qed

theorem record_length_mismatch_witness:
  "fst (read_block \<lparr>f_content = ''xy'' @ uint_to_bytes 3 @ ''abc'' @ uint_to_bytes 2 @ ''z'',
                    f_pos = 2, f_closed = False\<rparr>) = Inl (IOError ''error reading block'') \<and>
   fst (skip_block \<lparr>f_content = ''xy'' @ uint_to_bytes 3 @ ''abc'' @ uint_to_bytes 2 @ ''z'',
                    f_pos = 2, f_closed = False\<rparr>) = Inl (IOError ''error skipping block'')"
  using record_length_mismatch
    [of "\<lparr>f_content = ''xy'' @ uint_to_bytes 3 @ ''abc'' @ uint_to_bytes 2 @ ''z'',
          f_pos = 2, f_closed = False\<rparr>" "''xy''" 3 "''abc''" 2 "''z''"]
  by simp

subsection \<open>Descriptor parsing\<close>

lemma takeWhile_word_run:
  assumes "list_all P w" and "r = [] \<or> \<not> P (hd r)"
  shows "takeWhile P (w @ r) = w" and "dropWhile P (w @ r) = r"
  using assms by (cases r; simp add: list_all_iff takeWhile_append2 dropWhile_append2)+

lemmas eval_defs = parse_descriptor_def decode_def ascii_text_def re_desc_match_def is_word_def is_digit_def
  is_space_def is_uspace_def newline_def quote_def endswith_def re_params_match_def split_eq_def
  strip_quotes_def Let_def re_params_findall.simps

lemma parse_descriptor_example:
  "parse_descriptor ''real name b=8'' = Inr (Some (''real'', ''name'', [''b'' \<mapsto> ''8'']))"
  by (simp add: eval_defs)

lemma utf8_valid_ascii: "list_all (\<lambda>a. a < 128) xs \<Longrightarrow> utf8_valid xs"
  by (induction xs rule: utf8_valid.induct) auto

lemma ascii_text_utf8: "ascii_text s \<Longrightarrow> utf8_valid (map of_char s)"
  by (rule utf8_valid_ascii) (simp add: ascii_text_def list_all_iff)

text \<open>
  C10, as the code has it. The kind and the name must be separated by exactly one space.
  An ASCII text that starts with a word followed by a separator of non-word characters
  other than the single space (two or more spaces, a tab, ...) is no descriptor: the
  parser returns \<open>None\<close>. Conversely every ASCII text that parses consists of the kind,
  one space, the name and a rest that does not go on with a word character. Bytes that
  are not well-formed UTF-8 never get to the pattern: decoding them raises
  UnicodeDecodeError.
\<close>

theorem parse_descriptor_one_space:
  "(ascii_text s \<and> s = w1 @ sep @ rest \<and> w1 \<noteq> [] \<and> list_all is_word w1 \<and>
    sep \<noteq> [] \<and> list_all (\<lambda>c. \<not> is_word c) sep \<and> sep \<noteq> '' ''
      \<longrightarrow> parse_descriptor s = Inr None) \<and>
   (ascii_text s \<and> parse_descriptor s = Inr (Some (k, nm, ps))
      \<longrightarrow> (\<exists>r. s = k @ '' '' @ nm @ r \<and> k \<noteq> [] \<and> nm \<noteq> [] \<and>
               list_all is_word k \<and> list_all is_word nm \<and> (r = [] \<or> \<not> is_word (hd r)))) \<and>
   (\<not> utf8_valid (map of_char s) \<longrightarrow> parse_descriptor s = Inl UnicodeDecodeError)"
proof (intro conjI impI)
  assume a: "ascii_text s \<and> s = w1 @ sep @ rest \<and> w1 \<noteq> [] \<and> list_all is_word w1 \<and>
    sep \<noteq> [] \<and> list_all (\<lambda>c. \<not> is_word c) sep \<and> sep \<noteq> '' ''"
  then obtain c sep' where sep: "sep = c # sep'" "\<not> is_word c"
    by (cases sep) auto
  from a sep have tw: "takeWhile is_word (w1 @ sep @ rest) = w1"
    "dropWhile is_word (w1 @ sep @ rest) = c # sep' @ rest"
    using takeWhile_word_run [of is_word w1 "sep @ rest"] by auto
  have "re_desc_match (w1 @ sep @ rest) = None"
  proof (cases "c = CHR '' ''")
    case False
    with a tw show ?thesis by (simp add: re_desc_match_def)
  next
    case True
    with a sep obtain c2 sep2 where s2: "sep' = c2 # sep2" "\<not> is_word c2"
      by (cases sep') auto
    with a tw True show ?thesis by (simp add: re_desc_match_def)
  qed
  moreover from a have "ascii_text s" "s = w1 @ sep @ rest" by blast+
  ultimately show "parse_descriptor s = Inr None"
    by (simp add: parse_descriptor_def decode_def)
next
  assume b: "ascii_text s \<and> parse_descriptor s = Inr (Some (k, nm, ps))"
  then obtain pstr where m: "re_desc_match s = Some (k, nm, pstr)"
    by (auto simp: parse_descriptor_def decode_def split: sum.splits option.splits)
  let ?r1 = "dropWhile is_word s"
  from m have k: "k = takeWhile is_word s" "k \<noteq> []"
    by (auto simp: re_desc_match_def Let_def split: list.splits if_splits)
  from m obtain r2 where r2: "?r1 = CHR '' '' # r2" "nm = takeWhile is_word r2" "nm \<noteq> []"
    by (auto simp: re_desc_match_def Let_def split: list.splits if_splits)
  have "s = k @ ?r1" by (simp add: k)
  also have "?r1 = '' '' @ nm @ dropWhile is_word r2" by (simp add: r2)
  finally have "s = k @ '' '' @ nm @ dropWhile is_word r2" .
  moreover have "list_all is_word k" "list_all is_word nm"
    by (auto simp: k r2 list_all_iff dest: set_takeWhileD)
  moreover have "dropWhile is_word r2 = [] \<or> \<not> is_word (hd (dropWhile is_word r2))"
    by (metis hd_dropWhile)
  ultimately show "\<exists>r. s = k @ '' '' @ nm @ r \<and> k \<noteq> [] \<and> nm \<noteq> [] \<and>
               list_all is_word k \<and> list_all is_word nm \<and> (r = [] \<or> \<not> is_word (hd r))"
    using k r2 by blast
next
  assume "\<not> utf8_valid (map of_char s)"
  with ascii_text_utf8 [of s] show "parse_descriptor s = Inl UnicodeDecodeError"
    by (auto simp: parse_descriptor_def decode_def)
qed

theorem parse_descriptor_one_space_witness:
  "parse_descriptor ''real  name b=8'' = Inr None \<and>
   parse_descriptor (''real'' @ [CHR 0x09] @ ''name'') = Inr None \<and>
   (\<exists>r. ''real name b=8'' = ''real'' @ '' '' @ ''name'' @ r) \<and>
   parse_descriptor (''real  name '' @ [CHR 0xFF]) = Inl UnicodeDecodeError"
  using parse_descriptor_one_space [of "''real  name b=8''" "''real''" "''  ''" "''name b=8''"]
    parse_descriptor_one_space [of "''real'' @ [CHR 0x09] @ ''name''" "''real''" "[CHR 0x09]" "''name''"]
    parse_descriptor_one_space [of "''real name b=8''" _ _ _ "''real''" "''name''" "[''b'' \<mapsto> ''8'']"]
    parse_descriptor_one_space [of "''real  name '' @ [CHR 0xFF]"]
    parse_descriptor_example
  by (simp add: ascii_text_def is_word_def)

text \<open>
  C10 as stated fails: in these bytes two spaces separate the first two words, and the
  parser does not return \<open>None\<close> but raises UnicodeDecodeError, the last byte being no
  UTF-8.
\<close>

theorem parse_descriptor_undecodable_counterexample:
  "parse_descriptor (''real  name '' @ [CHR 0xFF]) = Inl UnicodeDecodeError \<and>
   parse_descriptor (''real  name '' @ [CHR 0xFF]) \<noteq> Inr None"
  by (simp add: parse_descriptor_def decode_def ascii_text_def)

subsection \<open>Decimal numerals\<close>

lemma digit_char [simp]:
  assumes "d < 10"
  shows "is_digit (char_of (48 + d))" and "digit_val (char_of (48 + d)) = d"
  using assms by (simp_all add: is_digit_def digit_val_def)







subsection \<open>Dimension parsing\<close>













subsection \<open>The end-to-end scenario\<close>

lemma example_stream_eq: "example_stream = 
  [CHR 0x00, CHR 0x00, CHR 0x00, CHR 0x11] @ ''fileform uio test'' @ [CHR 0x00, CHR 0x00, CHR 0x00, CHR 0x11] @
  [CHR 0x00, CHR 0x00, CHR 0x00, CHR 0x13] @ ''real name b=8 d=1:3'' @ [CHR 0x00, CHR 0x00, CHR 0x00, CHR 0x13] @
  [CHR 0x00, CHR 0x00, CHR 0x00, CHR 0x18] @ f8_1 @ f8_2 @ f8_3 @ [CHR 0x00, CHR 0x00, CHR 0x00, CHR 0x18]"
  by (simp add: example_stream_def uint_to_bytes_def f8_1_def f8_2_def f8_3_def char_of_def bit_0)

lemmas io_defs = read_string_def read_block_def read_block_size_def skip_block_def f_read_def
  f_seek_def f_seek_cur_def f_tell_def open_rb_def uint_from_bytes_def read_string_loop.simps
  rstrip_def Let_def is_space_def endswith_def

lemmas entry_defs = read_entry_def entry_dtype_def entry_shape_def dims_shape_def
  re_dims_findall.simps re_dims_match_def py_int_def is_uspace_def digits_val_def digit_val_def
  show_int_def show_nat.simps list_all_iff

lemma example_header:
  "read_file_header (example_fd 0) = (Inr Map.empty, example_fd 25)"
  by (simp add: example_fd_def example_stream_eq f8_1_def f8_2_def f8_3_def read_file_header_def
      io_defs eval_defs)

lemma example_read_entry:
  "read_entry (example_fd 25) = (Inr example_entry, example_fd 52)"
  by (simp add: example_fd_def example_stream_eq f8_1_def f8_2_def f8_3_def example_entry_def
      io_defs eval_defs entry_defs char_of_def bit_0)

lemma example_skip: "skip_block (example_fd 52) = (Inr (), example_fd 84)"
  by (simp add: example_fd_def example_stream_eq f8_1_def f8_2_def f8_3_def io_defs)

lemma example_eof: "read_entry (example_fd 84) = (Inl EOFError, example_fd 84)"
  by (simp add: example_fd_def example_stream_eq f8_1_def f8_2_def f8_3_def read_entry_def io_defs)

lemma example_entries:
  "read_file_entries (example_fd 25) = (Inr [FEntry example_entry], example_fd 84)"
  by (simp add: read_file_entries_def read_file_entries_loop.simps [of _ "example_fd 25"]
      read_file_entries_loop.simps [of _ "example_fd 84"]
      example_read_entry example_skip example_eof example_entry_def)

lemma example_File_init: "File_init example_stream = Inr example_file"
proof -
  have "f_read (4 + 12) (open_rb example_stream) =
      (Inr ([CHR 0x00, CHR 0x00, CHR 0x00, CHR 0x11] @ ''fileform uio''), example_fd 16)"
    by (simp add: example_fd_def example_stream_eq f_read_def open_rb_def)
  moreover have "f_seek 0 (example_fd 16) = (Inr (), example_fd 0)"
    by (simp add: example_fd_def f_seek_def)
  ultimately show ?thesis
    by (simp add: File_init_def example_header example_entries example_file_def)
qed


lemmas array_defs = data_def read_array_def np_dtype_def np_fromfile_def np_reshape_def
  chunks.simps digits_val_def digit_val_def is_digit_def list_all_iff

lemma example_data:
  "data example_entry (example_fd p) =
     (Inr (NdArray \<lparr>a_dtype = (CHR ''f'', 8), a_shape = [3], a_items = [f8_1, f8_2, f8_3]\<rparr>),
      example_entry, example_fd 84)"
  by (simp add: example_fd_def example_stream_eq f8_1_def f8_2_def f8_3_def example_entry_def
      io_defs array_defs)

lemma f8_values: "map f8_value [f8_1, f8_2, f8_3] = [Some 1, Some 2, Some 3]"
  by (simp add: f8_value_def f8_1_def f8_2_def f8_3_def uint_from_bytes_def Let_def)

text \<open>
  C1. On the stream made of the header record \<open>fileform uio test\<close>, the descriptor
  record \<open>real name b=8 d=1:3\<close>, a payload record with the big-endian doubles 1.0, 2.0
  and 3.0, and nothing more, opening succeeds, the lookup of \<open>name\<close> finds the entry
  and its data is the sequence of three items whose values are 1, 2 and 3.
\<close>

theorem end_to_end:
  "File_init example_stream = Inr example_file \<and>
   File_getitem example_file ''name'' = Inr example_entry \<and>
   fst (Entry_data example_file example_entry) =
     Inr (NdArray \<lparr>a_dtype = (CHR ''f'', 8), a_shape = [3], a_items = [f8_1, f8_2, f8_3]\<rparr>) \<and>
   map f8_value [f8_1, f8_2, f8_3] = [Some 1, Some 2, Some 3]"
proof -
  have "File_getitem example_file ''name'' = Inr example_entry"
    by (simp add: File_getitem_def example_file_def example_entry_def)
  moreover have "fst (Entry_data example_file example_entry) =
     Inr (NdArray \<lparr>a_dtype = (CHR ''f'', 8), a_shape = [3], a_items = [f8_1, f8_2, f8_3]\<rparr>)"
    by (simp add: Entry_data_def example_file_def example_data)
  ultimately show ?thesis
    using example_File_init f8_values by blast
qed

subsection \<open>Data access\<close>

lemma f_pos_update_twice: "f1 = f\<lparr>f_pos := q\<rparr> \<Longrightarrow> f2 = f1\<lparr>f_pos := q'\<rparr> \<Longrightarrow> f2 = f\<lparr>f_pos := q'\<rparr>"
  by simp

lemma same_file_refl: "\<exists>q. f = f\<lparr>f_pos := q\<rparr>"
  by (rule exI [of _ "f_pos f"]) simp

lemma read_block_size_same_file: "\<exists>q. snd (read_block_size f) = f\<lparr>f_pos := q\<rparr>"
proof (cases "f_closed f")
  case True
  with same_file_refl [of f] show ?thesis by (simp add: read_block_size_def f_read_def)
next
  case False
  then show ?thesis by (auto simp: read_block_size_def f_read_def Let_def)
qed

lemma np_fromfile_same_file: "\<exists>q. snd (np_fromfile f dt n) = f\<lparr>f_pos := q\<rparr>"
proof (cases "f_closed f")
  case True
  with same_file_refl [of f] show ?thesis by (simp add: np_fromfile_def)
next
  case False
  then show ?thesis by (auto simp: np_fromfile_def Let_def)
qed

lemma read_array_same_file: "\<exists>q. snd (read_array f dt) = f\<lparr>f_pos := q\<rparr>"
proof -
  note id = same_file_refl [of f]
  obtain q1 where q1: "snd (read_block_size f) = f\<lparr>f_pos := q1\<rparr>"
    using read_block_size_same_file by blast
  let ?f1 = "f\<lparr>f_pos := q1\<rparr>"
  have q2: "\<exists>q. snd (np_fromfile ?f1 d n) = f\<lparr>f_pos := q\<rparr>" for d n
    using np_fromfile_same_file [of ?f1 d n] by auto
  have q3: "\<exists>q. snd (read_block_size (f\<lparr>f_pos := q'\<rparr>)) = f\<lparr>f_pos := q\<rparr>" for q'
    using read_block_size_same_file [of "f\<lparr>f_pos := q'\<rparr>"] by auto
  show ?thesis
  proof (cases "np_dtype dt")
    case (Inl e)
    with id show ?thesis by (simp add: read_array_def)
  next
    case (Inr d)
    obtain r1 where r1: "read_block_size f = (r1, ?f1)" using q1 by (cases "read_block_size f") auto
    show ?thesis
    proof (cases r1)
      case (Inl e)
      with Inr r1 show ?thesis by (auto simp: read_array_def)
    next
      case n: (Inr n)
      show ?thesis
      proof (cases "snd d = 0")
        case True
        with Inr r1 n show ?thesis by (auto simp: read_array_def)
      next
        case False
        obtain q2' where q2': "snd (np_fromfile ?f1 d (n div snd d)) = f\<lparr>f_pos := q2'\<rparr>"
          using q2 by blast
        then obtain r2 where r2: "np_fromfile ?f1 d (n div snd d) = (r2, f\<lparr>f_pos := q2'\<rparr>)"
          by (cases "np_fromfile ?f1 d (n div snd d)") auto
        obtain q3' where q3': "snd (read_block_size (f\<lparr>f_pos := q2'\<rparr>)) = f\<lparr>f_pos := q3'\<rparr>"
          using q3 by blast
        then obtain r3 where r3: "read_block_size (f\<lparr>f_pos := q2'\<rparr>) = (r3, f\<lparr>f_pos := q3'\<rparr>)"
          by (cases "read_block_size (f\<lparr>f_pos := q2'\<rparr>)") auto
        from Inr r1 n False r2 r3 show ?thesis
          by (cases r2; cases r3) (auto simp: read_array_def)
      qed
    qed
  qed
qed

lemma data_self: "fst (snd (data e f)) = e"
  by (simp add: data_def split: prod.splits sum.splits option.splits list.splits)

lemma data_same_file: "\<exists>q. snd (snd (data e f)) = f\<lparr>f_pos := q\<rparr>"
proof (cases "f_closed f")
  case True
  with same_file_refl [of f] show ?thesis by (simp add: data_def f_seek_def)
next
  case False
  obtain q where q: "snd (read_array (f\<lparr>f_pos := pos e\<rparr>) (dtype e)) = f\<lparr>f_pos := q\<rparr>"
    using read_array_same_file [of "f\<lparr>f_pos := pos e\<rparr>" "dtype e"] by auto
  then obtain r where "read_array (f\<lparr>f_pos := pos e\<rparr>) (dtype e) = (r, f\<lparr>f_pos := q\<rparr>)"
    by (cases "read_array (f\<lparr>f_pos := pos e\<rparr>) (dtype e)") auto
  with False have "snd (snd (data e f)) = f\<lparr>f_pos := q\<rparr>"
    by (simp add: data_def f_seek_def split: sum.splits option.splits list.splits)
  then show ?thesis by blast
qed

lemma data_seeks: "\<not> f_closed f \<Longrightarrow> data e (f\<lparr>f_pos := p\<rparr>) = data e f"
  by (simp add: data_def f_seek_def)

lemma data_closed: "f_closed f \<Longrightarrow> data e f = (Inl UseAfterClose, e, f)"
  by (simp add: data_def f_seek_def)

text \<open>
  C9. Whatever a first access to the data of an entry returns (a value or an exception),
  a second access returns the same. The entry comes back from the access as it went in,
  with all its fields; of the file only the position has changed. Each access seeks
  to the stored position by itself: the result does not depend on the position the
  file had before.
\<close>

theorem data_twice:
  assumes "data e f = (r, e1, f1)"
  shows "e1 = e \<and> (\<exists>q. f1 = f\<lparr>f_pos := q\<rparr>) \<and> data e1 f1 = (r, e, f1) \<and>
         fst (data e (f\<lparr>f_pos := p\<rparr>)) = r"
proof -
  from assms data_self [of e f] have e1: "e1 = e" by simp
  from assms data_same_file [of e f] obtain q where q: "f1 = f\<lparr>f_pos := q\<rparr>" by auto
  show ?thesis
  proof (cases "f_closed f")
    case True
    with assms have "r = Inl UseAfterClose" "f1 = f" by (simp_all add: data_closed)
    with True e1 q show ?thesis by (auto simp: data_closed)
  next
    case False
    with assms q e1 show ?thesis by (auto simp: data_seeks)
  qed
qed

theorem data_twice_witness:
  "data example_entry (example_fd 25) =
     (Inr (NdArray \<lparr>a_dtype = (CHR ''f'', 8), a_shape = [3], a_items = [f8_1, f8_2, f8_3]\<rparr>),
      example_entry, example_fd 84) \<and>
   data example_entry (example_fd 84) =
     (Inr (NdArray \<lparr>a_dtype = (CHR ''f'', 8), a_shape = [3], a_items = [f8_1, f8_2, f8_3]\<rparr>),
      example_entry, example_fd 84)"
  using data_twice [OF example_data [of 25], of 0] example_data [of 25] by simp

subsection \<open>Closing the container\<close>

text \<open>
  C5, as the code has it. After \<open>close\<close> the data of every entry raises the ValueError
  of the closed file. Name lookup scans the list of entries and never touches the file:
  it returns after \<open>close\<close> what it returned before.
\<close>

theorem close_then_access:
  "fst (Entry_data (File_close F) e) = Inl UseAfterClose \<and>
   File_getitem (File_close F) key = File_getitem F key"
  by (simp add: Entry_data_def File_close_def File_getitem_def f_close_def data_closed
      split: prod.splits)

text \<open>
  C5 as stated fails: on the container of the example file, closed, the lookup of
  \<open>name\<close> still returns the entry.
\<close>

theorem lookup_after_close_counterexample:
  "File_init example_stream = Inr example_file \<and>
   File_getitem (File_close example_file) ''name'' = Inr example_entry"
  using example_File_init
  by (simp add: File_close_def File_getitem_def example_file_def example_entry_def)

subsection \<open>One pass of each tree-builder loop\<close>

lemma box_loop_error:
  "fst (read_entry f) = Inl e \<Longrightarrow> fst (read_box_entries_loop acc f) = Inl e"
  by (cases "read_entry f") (simp add: read_box_entries_loop.simps [of acc f])

lemma dataset_loop_error:
  "fst (read_entry f) = Inl e \<Longrightarrow> fst (read_dataset_entries_loop acc f) = Inl e"
  by (cases "read_entry f") (simp add: read_dataset_entries_loop.simps [of acc f])

lemma file_loop_error:
  "fst (read_entry f) = Inl e \<Longrightarrow>
   fst (read_file_entries_loop acc f) = (if e = EOFError then Inr acc else Inl e)"
  by (cases "read_entry f") (simp add: read_file_entries_loop.simps [of acc f])

lemma read_entry_open: "read_entry f = (Inr entry, f1) \<Longrightarrow> \<not> f_closed f1"
  by (drule read_entry_adv) (simp add: f_adv_def)

lemma dataset_loop_box_error:
  assumes "read_entry f = (Inr entry, f1)" and "type entry = ''label''"
    and "name entry = ''box''" and "fst (read_box_entries f1) = Inl e"
  shows "fst (read_dataset_entries_loop acc f) = Inl e"
  using assms read_entry_open [OF assms(1)]
  by (cases "read_box_entries f1")
     (simp add: read_dataset_entries_loop.simps [of acc f] f_tell_def)

lemma file_loop_dataset_error:
  assumes "read_entry f = (Inr entry, f1)" and "type entry = ''label''"
    and "name entry = ''dataset''" and "fst (read_dataset_entries f1) = Inl e"
  shows "fst (read_file_entries_loop acc f) = Inl e"
  using assms
  by (cases "read_dataset_entries f1") (simp add: read_file_entries_loop.simps [of acc f])

lemma file_loop_skip_error:
  assumes "read_entry f = (Inr entry, f1)"
    and "type entry = ''label'' \<longrightarrow> name entry \<noteq> ''dataset''"
    and "fst (skip_block f1) = Inl e"
  shows "fst (read_file_entries_loop acc f) = Inl e"
  using assms
  by (cases "skip_block f1") (auto simp add: read_file_entries_loop.simps [of acc f])

lemma read_entry_table:
  assumes "read_string f = (Inr s, f1)"
    and "parse_descriptor s = Inr (Some (''table'', nm, ps))"
  shows "read_entry f = (Inl UnsupportedEntryKind, f1)"
  using assms by (simp add: read_entry_def)

subsection \<open>The file with a table, byte by byte\<close>

lemma table_stream_eq: "table_stream =
  [CHR 0x00, CHR 0x00, CHR 0x00, CHR 0x0C] @ ''fileform uio'' @ [CHR 0x00, CHR 0x00, CHR 0x00, CHR 0x0C] @
  [CHR 0x00, CHR 0x00, CHR 0x00, CHR 0x0D] @ ''label dataset'' @ [CHR 0x00, CHR 0x00, CHR 0x00, CHR 0x0D] @
  [CHR 0x00, CHR 0x00, CHR 0x00, CHR 0x09] @ ''label box'' @ [CHR 0x00, CHR 0x00, CHR 0x00, CHR 0x09] @
  [CHR 0x00, CHR 0x00, CHR 0x00, CHR 0x0B] @ ''table t b=4'' @ [CHR 0x00, CHR 0x00, CHR 0x00, CHR 0x0B]"
  by (simp add: table_stream_def uint_to_bytes_def char_of_def bit_0)

subsection \<open>Truncated streams\<close>

lemma read_entry_eof:
  assumes "\<not> f_closed f" and "length (f_content f) - f_pos f < 4"
  shows "fst (read_entry f) = Inl TruncatedStream"
  using read_block_size_eof [OF assms]
  by (simp add: read_entry_def read_string_def read_block_def)

lemma skip_block_eof:
  assumes "\<not> f_closed f" and "length (f_content f) - f_pos f < 4"
  shows "fst (skip_block f) = Inl TruncatedStream"
  using read_block_size_eof [OF assms] by (simp add: skip_block_def)

lemma data_eof:
  assumes "\<not> f_closed f" and "length (f_content f) - pos e < 4"
    and "np_dtype (dtype e) = Inr dt"
  shows "fst (data e f) = Inl TruncatedStream"
proof -
  have "fst (read_block_size (f\<lparr>f_pos := pos e\<rparr>)) = Inl TruncatedStream"
    using read_block_size_eof [of "f\<lparr>f_pos := pos e\<rparr>"] assms by simp
  then show ?thesis
    using assms
    by (cases "read_block_size (f\<lparr>f_pos := pos e\<rparr>)")
       (simp add: data_def f_seek_def read_array_def)
qed

text \<open>
  C4, as the code has it. When the end of the stream is met while a descriptor is read
  at file scope, the file loop ends normally with what it has collected. When it is met
  while a descriptor is read in a box or a dataset body, the loop raises EOFError, and so
  does the enclosing loop (the dataset loop around a box, the file loop around a
  dataset). When it is met while the payload record behind a file-scope entry is
  skipped, the file loop raises EOFError too: the skip is outside the \<open>try\<close>. And it is
  raised by a data access whose payload record is missing. Fewer than four bytes where a
  length word is expected is how the end of the stream is met.
\<close>

theorem truncated_stream:
  "(fst (read_entry f) = Inl TruncatedStream \<longrightarrow>
      fst (read_file_entries_loop file_acc f) = Inr file_acc \<and>
      fst (read_box_entries_loop box_acc f) = Inl TruncatedStream \<and>
      fst (read_dataset_entries_loop ds_acc f) = Inl TruncatedStream) \<and>
   (\<not> f_closed f \<and> length (f_content f) - f_pos f < 4 \<longrightarrow>
      fst (read_entry f) = Inl TruncatedStream \<and> fst (skip_block f) = Inl TruncatedStream) \<and>
   (read_entry g = (Inr entry, g1) \<and> \<not> (type entry = ''label'' \<and> name entry = ''dataset'') \<and>
    fst (skip_block g1) = Inl TruncatedStream \<longrightarrow>
      fst (read_file_entries_loop file_acc g) = Inl TruncatedStream) \<and>
   (read_entry g = (Inr entry, g1) \<and> type entry = ''label'' \<and> name entry = ''dataset'' \<and>
    fst (read_dataset_entries g1) = Inl TruncatedStream \<longrightarrow>
      fst (read_file_entries_loop file_acc g) = Inl TruncatedStream) \<and>
   (read_entry g = (Inr entry, g1) \<and> type entry = ''label'' \<and> name entry = ''box'' \<and>
    fst (read_box_entries g1) = Inl TruncatedStream \<longrightarrow>
      fst (read_dataset_entries_loop ds_acc g) = Inl TruncatedStream) \<and>
   (\<not> f_closed f \<and> length (f_content f) - pos e < 4 \<and> np_dtype (dtype e) = Inr dt \<longrightarrow>
      fst (data e f) = Inl TruncatedStream)"
proof (intro conjI impI)
  assume a: "fst (read_entry f) = Inl TruncatedStream"
  from file_loop_error [OF a] show "fst (read_file_entries_loop file_acc f) = Inr file_acc"
    by simp
  from a show "fst (read_box_entries_loop box_acc f) = Inl TruncatedStream"
    by (rule box_loop_error)
  from a show "fst (read_dataset_entries_loop ds_acc f) = Inl TruncatedStream"
    by (rule dataset_loop_error)
next
  assume "\<not> f_closed f \<and> length (f_content f) - f_pos f < 4"
  then show "fst (read_entry f) = Inl TruncatedStream" "fst (skip_block f) = Inl TruncatedStream"
    by (simp_all add: read_entry_eof skip_block_eof)
next
  assume "read_entry g = (Inr entry, g1) \<and>
    \<not> (type entry = ''label'' \<and> name entry = ''dataset'') \<and>
    fst (skip_block g1) = Inl TruncatedStream"
  then show "fst (read_file_entries_loop file_acc g) = Inl TruncatedStream"
    by (intro file_loop_skip_error [of g entry g1]) auto
next
  assume "read_entry g = (Inr entry, g1) \<and> type entry = ''label'' \<and> name entry = ''dataset'' \<and>
    fst (read_dataset_entries g1) = Inl TruncatedStream"
  then show "fst (read_file_entries_loop file_acc g) = Inl TruncatedStream"
    by (intro file_loop_dataset_error [of g entry g1]) auto
next
  assume "read_entry g = (Inr entry, g1) \<and> type entry = ''label'' \<and> name entry = ''box'' \<and>
    fst (read_box_entries g1) = Inl TruncatedStream"
  then show "fst (read_dataset_entries_loop ds_acc g) = Inl TruncatedStream"
    by (intro dataset_loop_box_error [of g entry g1]) auto
next
  assume "\<not> f_closed f \<and> length (f_content f) - pos e < 4 \<and> np_dtype (dtype e) = Inr dt"
  then show "fst (data e f) = Inl TruncatedStream"
    by (intro data_eof [of f e dt]) auto
qed


lemma cut_stream_eq: "cut_stream =
  [CHR 0x00, CHR 0x00, CHR 0x00, CHR 0x11] @ ''fileform uio test'' @ [CHR 0x00, CHR 0x00, CHR 0x00, CHR 0x11] @
  [CHR 0x00, CHR 0x00, CHR 0x00, CHR 0x13] @ ''real name b=8 d=1:3'' @ [CHR 0x00, CHR 0x00, CHR 0x00, CHR 0x13]"
  by (simp add: cut_stream_def example_stream_eq)

lemma cut_read_entry: "read_entry (cut_fd 25) = (Inr example_entry, cut_fd 52)"
  by (simp add: cut_fd_def cut_stream_eq example_entry_def io_defs eval_defs entry_defs
      char_of_def bit_0)

lemma cut_skip: "fst (skip_block (cut_fd 52)) = Inl TruncatedStream"
  by (rule skip_block_eof) (simp_all add: cut_fd_def cut_stream_eq)

text \<open>
  C4 as stated fails at file scope: in the example file cut off behind its descriptor
  the length word of the payload record is expected where no byte is left, at file
  scope, and opening the file raises EOFError.
\<close>

theorem truncated_at_file_scope_counterexample:
  "read_entry (cut_fd 25) = (Inr example_entry, cut_fd 52) \<and>
   length cut_stream - 52 < 4 \<and>
   File_init cut_stream = Inl TruncatedStream"
proof -
  have fl: "fst (read_file_entries (cut_fd 25)) = Inl TruncatedStream"
    unfolding read_file_entries_def
    by (rule file_loop_skip_error [OF cut_read_entry _ cut_skip]) (simp add: example_entry_def)
  have hd: "read_file_header (cut_fd 0) = (Inr Map.empty, cut_fd 25)"
    by (simp add: cut_fd_def cut_stream_eq read_file_header_def io_defs eval_defs)
  have rd: "f_read (4 + 12) (open_rb cut_stream) =
      (Inr ([CHR 0x00, CHR 0x00, CHR 0x00, CHR 0x11] @ ''fileform uio''), cut_fd 16)"
    by (simp add: cut_fd_def cut_stream_eq f_read_def open_rb_def)
  have sk: "f_seek 0 (cut_fd 16) = (Inr (), cut_fd 0)"
    by (simp add: cut_fd_def f_seek_def)
  from fl rd sk have "File_init cut_stream = Inl TruncatedStream"
    by (cases "read_file_entries (cut_fd 25)") (simp add: File_init_def hd)
  moreover have "length cut_stream - 52 < 4" by (simp add: cut_stream_eq)
  ultimately show ?thesis using cut_read_entry by simp
qed

theorem truncated_stream_witness:
  "fst (read_file_entries_loop [] (example_fd 84)) = Inr [] \<and>
   fst (read_box_entries_loop [] (example_fd 84)) = Inl TruncatedStream \<and>
   fst (read_dataset_entries_loop [] (example_fd 84)) = Inl TruncatedStream \<and>
   fst (read_entry (example_fd 84)) = Inl TruncatedStream \<and>
   fst (skip_block (example_fd 84)) = Inl TruncatedStream \<and>
   fst (read_file_entries_loop [] (cut_fd 25)) = Inl TruncatedStream \<and>
   fst (read_file_entries_loop [] (cut_table_fd 41 20)) = Inl TruncatedStream \<and>
   fst (read_dataset_entries_loop [] (cut_table_fd 58 41)) = Inl TruncatedStream \<and>
   fst (data (example_entry\<lparr>pos := 84\<rparr>) (example_fd 0)) = Inl TruncatedStream"
proof -
  have len: "length example_stream = 84"
    by (simp add: example_stream_eq f8_1_def f8_2_def f8_3_def)
  have eof: "fst (read_entry (example_fd 84)) = Inl TruncatedStream"
    using example_eof by simp
  have t41: "take 41 table_stream =
    [CHR 0x00, CHR 0x00, CHR 0x00, CHR 0x0C] @ ''fileform uio'' @ [CHR 0x00, CHR 0x00, CHR 0x00, CHR 0x0C] @
    [CHR 0x00, CHR 0x00, CHR 0x00, CHR 0x0D] @ ''label dataset'' @ [CHR 0x00, CHR 0x00, CHR 0x00, CHR 0x0D]"
    by (simp add: table_stream_eq)
  have t58: "take 58 table_stream =
    [CHR 0x00, CHR 0x00, CHR 0x00, CHR 0x0C] @ ''fileform uio'' @ [CHR 0x00, CHR 0x00, CHR 0x00, CHR 0x0C] @
    [CHR 0x00, CHR 0x00, CHR 0x00, CHR 0x0D] @ ''label dataset'' @ [CHR 0x00, CHR 0x00, CHR 0x00, CHR 0x0D] @
    [CHR 0x00, CHR 0x00, CHR 0x00, CHR 0x09] @ ''label box'' @ [CHR 0x00, CHR 0x00, CHR 0x00, CHR 0x09]"
    by (simp add: table_stream_eq)
  have d1: "read_entry (cut_table_fd 41 20) =
      (Inr \<lparr>pos = 41, type = ''label'', name = ''dataset'', params = Map.empty, dtype = None,
            shape = None\<rparr>, cut_table_fd 41 41)"
    by (simp add: cut_table_fd_def t41 io_defs eval_defs entry_defs)
  have d2: "fst (read_dataset_entries (cut_table_fd 41 41)) = Inl TruncatedStream"
    unfolding read_dataset_entries_def
    by (rule dataset_loop_error, rule read_entry_eof) (simp_all add: cut_table_fd_def t41)
  have b1: "read_entry (cut_table_fd 58 41) =
      (Inr \<lparr>pos = 58, type = ''label'', name = ''box'', params = Map.empty, dtype = None,
            shape = None\<rparr>, cut_table_fd 58 58)"
    by (simp add: cut_table_fd_def t58 io_defs eval_defs entry_defs)
  have b2: "fst (read_box_entries (cut_table_fd 58 58)) = Inl TruncatedStream"
    unfolding read_box_entries_def
    by (rule box_loop_error, rule read_entry_eof) (simp_all add: cut_table_fd_def t58)
  have dt: "np_dtype (Some ''f8'') = Inr (CHR ''f'', 8)"
    by (simp add: np_dtype_def digits_val_def digit_val_def is_digit_def)
  note a = truncated_stream [of "example_fd 84" "[]" "[]" "[]" "cut_fd 25" example_entry
      "cut_fd 52" "example_entry\<lparr>pos := 84\<rparr>" "(CHR ''f'', 8)"]
  note b = truncated_stream [of "example_fd 0" "[]" "[]" "[]" "cut_table_fd 41 20"
      "\<lparr>pos = 41, type = ''label'', name = ''dataset'', params = Map.empty, dtype = None,
        shape = None\<rparr>" "cut_table_fd 41 41" "example_entry\<lparr>pos := 84\<rparr>" "(CHR ''f'', 8)"]
  note c = truncated_stream [of "example_fd 0" "[]" "[]" "[]" "cut_table_fd 58 41"
      "\<lparr>pos = 58, type = ''label'', name = ''box'', params = Map.empty, dtype = None,
        shape = None\<rparr>" "cut_table_fd 58 58" "example_entry\<lparr>pos := 84\<rparr>" "(CHR ''f'', 8)"]
  from a eof cut_read_entry cut_skip len
  have 1: "fst (read_file_entries_loop [] (example_fd 84)) = Inr [] \<and>
   fst (read_box_entries_loop [] (example_fd 84)) = Inl TruncatedStream \<and>
   fst (read_dataset_entries_loop [] (example_fd 84)) = Inl TruncatedStream \<and>
   fst (skip_block (example_fd 84)) = Inl TruncatedStream \<and>
   fst (read_file_entries_loop [] (cut_fd 25)) = Inl TruncatedStream"
    by (simp add: example_fd_def example_entry_def)
  from b d1 d2 len dt
  have 2: "fst (read_file_entries_loop [] (cut_table_fd 41 20)) = Inl TruncatedStream \<and>
    fst (data (example_entry\<lparr>pos := 84\<rparr>) (example_fd 0)) = Inl TruncatedStream"
    by (simp add: example_fd_def example_entry_def)
  from c b1 b2
  have 3: "fst (read_dataset_entries_loop [] (cut_table_fd 58 41)) = Inl TruncatedStream"
    by simp
  from 1 2 3 eof show ?thesis by simp
qed

subsection \<open>Shapes of entries\<close>










subsection \<open>Labels of other names\<close>

text \<open>
  What each loop does with an entry that does not end or open a group. The file loop
  and the box loop append it and skip the record behind it, whatever its kind; the
  dataset loop does so for every kind but \<open>label\<close>, and for a label it goes on with
  its list unchanged and without skipping a record.
\<close>

lemma file_loop_entry:
  assumes "read_entry f = (Inr entry, f1)"
    and "\<not> (type entry = ''label'' \<and> name entry = ''dataset'')"
    and "skip_block f1 = (Inr u, f2)"
  shows "read_file_entries_loop acc f = read_file_entries_loop (acc @ [FEntry entry]) f2"
  using assms by (subst read_file_entries_loop.simps) auto

lemma box_loop_entry:
  assumes "read_entry f = (Inr entry, f1)"
    and "\<not> (type entry = ''label'' \<and> name entry = ''endbox'')"
    and "skip_block f1 = (Inr u, f2)"
  shows "read_box_entries_loop acc f = read_box_entries_loop (acc @ [entry]) f2"
  using assms by (subst read_box_entries_loop.simps) auto

lemma dataset_loop_entry:
  assumes "read_entry f = (Inr entry, f1)" and "type entry \<noteq> ''label''"
    and "skip_block f1 = (Inr u, f2)"
  shows "read_dataset_entries_loop acc f = read_dataset_entries_loop (acc @ [DsEntry entry]) f2"
  using assms by (subst read_dataset_entries_loop.simps) auto

lemma dataset_loop_other_label:
  assumes "read_entry f = (Inr entry, f1)" and "type entry = ''label''"
    and "name entry \<noteq> ''enddataset''" and "name entry \<noteq> ''box''"
  shows "read_dataset_entries_loop acc f = read_dataset_entries_loop acc f1"
  using assms by (subst read_dataset_entries_loop.simps) auto

lemma dataset_loop_end:
  assumes "read_entry f = (Inr entry, f1)" and "type entry = ''label''"
    and "name entry = ''enddataset''"
  shows "read_dataset_entries_loop acc f = (Inr acc, f1)"
  using assms by (subst read_dataset_entries_loop.simps) auto

lemma label_stream_eq: "label_stream =
  [CHR 0x00, CHR 0x00, CHR 0x00, CHR 0x0C] @ ''fileform uio'' @ [CHR 0x00, CHR 0x00, CHR 0x00, CHR 0x0C] @
  [CHR 0x00, CHR 0x00, CHR 0x00, CHR 0x0D] @ ''label dataset'' @ [CHR 0x00, CHR 0x00, CHR 0x00, CHR 0x0D] @
  [CHR 0x00, CHR 0x00, CHR 0x00, CHR 0x09] @ ''label foo'' @ [CHR 0x00, CHR 0x00, CHR 0x00, CHR 0x09] @
  [CHR 0x00, CHR 0x00, CHR 0x00, CHR 0x10] @ ''label enddataset'' @ [CHR 0x00, CHR 0x00, CHR 0x00, CHR 0x10]"
  by (simp add: label_stream_def uint_to_bytes_def char_of_def bit_0)

lemma top_label_stream_eq: "top_label_stream =
  [CHR 0x00, CHR 0x00, CHR 0x00, CHR 0x0C] @ ''fileform uio'' @ [CHR 0x00, CHR 0x00, CHR 0x00, CHR 0x0C] @
  [CHR 0x00, CHR 0x00, CHR 0x00, CHR 0x09] @ ''label foo'' @ [CHR 0x00, CHR 0x00, CHR 0x00, CHR 0x09] @
  [CHR 0x00, CHR 0x00, CHR 0x00, CHR 0x04] @ ''abcd'' @ [CHR 0x00, CHR 0x00, CHR 0x00, CHR 0x04]"
  by (simp add: top_label_stream_def uint_to_bytes_def char_of_def bit_0)

lemma label_dataset_body:
  "read_dataset_entries (label_fd 41) = (Inr [], label_fd 82)"
proof -
  have e1: "read_entry (label_fd 41) = (Inr (label_foo 58), label_fd 58)"
    by (simp add: label_fd_def label_stream_eq label_foo_def io_defs eval_defs entry_defs)
  have e2: "read_entry (label_fd 58) =
      (Inr \<lparr>pos = 82, type = ''label'', name = ''enddataset'', params = Map.empty,
            dtype = None, shape = None\<rparr>, label_fd 82)"
    by (simp add: label_fd_def label_stream_eq io_defs eval_defs entry_defs)
  have "read_dataset_entries_loop [] (label_fd 41) = read_dataset_entries_loop [] (label_fd 58)"
    by (rule dataset_loop_other_label [OF e1]) (simp_all add: label_foo_def)
  also have "\<dots> = (Inr [], label_fd 82)"
    by (rule dataset_loop_end [OF e2]) simp_all
  finally show ?thesis by (simp add: read_dataset_entries_def)
qed

text \<open>
  C2 at the failing input. In a dataset body the label \<open>foo\<close> is not appended: the
  dataset that the reader builds has no entry. The same label at file scope is appended
  to the entries of the file, and the record behind it is skipped.
\<close>

theorem dataset_drops_other_label:
  "File_init label_stream =
     Inr \<lparr>fd = label_fd 82, header = Map.empty, entries = [],
          dataset = [\<lparr>ds_pos = 82, ds_params = Map.empty, ds_entries = [], ds_box = []\<rparr>]\<rparr> \<and>
   File_init top_label_stream =
     Inr \<lparr>fd = top_label_fd 49, header = Map.empty, entries = [label_foo 37], dataset = []\<rparr>"
proof -
  have e0: "read_entry (label_fd 20) =
      (Inr \<lparr>pos = 41, type = ''label'', name = ''dataset'', params = Map.empty,
            dtype = None, shape = None\<rparr>, label_fd 41)"
    by (simp add: label_fd_def label_stream_eq io_defs eval_defs entry_defs)
  have eof: "read_entry (label_fd 82) = (Inl EOFError, label_fd 82)"
    by (simp add: label_fd_def label_stream_eq read_entry_def io_defs)
  have tl: "f_tell (label_fd 82) = (Inr 82, label_fd 82)"
    by (simp add: f_tell_def label_fd_def)
  have fl: "read_file_entries (label_fd 20) =
      (Inr [FDataSet \<lparr>ds_pos = 82, ds_params = Map.empty, ds_entries = [], ds_box = []\<rparr>],
       label_fd 82)"
    by (simp add: read_file_entries_def read_file_entries_loop.simps [of _ "label_fd 20"]
        read_file_entries_loop.simps [of _ "label_fd 82"] e0 eof tl label_dataset_body)
  have hd: "read_file_header (label_fd 0) = (Inr Map.empty, label_fd 20)"
    by (simp add: label_fd_def label_stream_eq read_file_header_def io_defs eval_defs)
  have rd: "f_read (4 + 12) (open_rb label_stream) =
      (Inr ([CHR 0x00, CHR 0x00, CHR 0x00, CHR 0x0C] @ ''fileform uio''), label_fd 16)"
    by (simp add: label_fd_def label_stream_eq f_read_def open_rb_def)
  have sk: "f_seek 0 (label_fd 16) = (Inr (), label_fd 0)"
    by (simp add: label_fd_def f_seek_def)
  from rd sk have 1: "File_init label_stream =
     Inr \<lparr>fd = label_fd 82, header = Map.empty, entries = [],
          dataset = [\<lparr>ds_pos = 82, ds_params = Map.empty, ds_entries = [], ds_box = []\<rparr>]\<rparr>"
    by (simp add: File_init_def hd fl)
  have t1: "read_entry (top_label_fd 20) = (Inr (label_foo 37), top_label_fd 37)"
    by (simp add: top_label_fd_def top_label_stream_eq label_foo_def io_defs eval_defs entry_defs)
  have t2: "skip_block (top_label_fd 37) = (Inr (), top_label_fd 49)"
    by (simp add: top_label_fd_def top_label_stream_eq io_defs)
  have t3: "read_entry (top_label_fd 49) = (Inl EOFError, top_label_fd 49)"
    by (simp add: top_label_fd_def top_label_stream_eq read_entry_def io_defs)
  have "read_file_entries_loop [] (top_label_fd 20) =
      read_file_entries_loop ([] @ [FEntry (label_foo 37)]) (top_label_fd 49)"
    by (rule file_loop_entry [OF t1 _ t2]) (simp add: label_foo_def)
  also have "\<dots> = (Inr [FEntry (label_foo 37)], top_label_fd 49)"
    by (simp add: read_file_entries_loop.simps [of _ "top_label_fd 49"] t3)
  finally have tf: "read_file_entries (top_label_fd 20) =
      (Inr [FEntry (label_foo 37)], top_label_fd 49)"
    by (simp add: read_file_entries_def)
  have thd: "read_file_header (top_label_fd 0) = (Inr Map.empty, top_label_fd 20)"
    by (simp add: top_label_fd_def top_label_stream_eq read_file_header_def io_defs eval_defs)
  have trd: "f_read (4 + 12) (open_rb top_label_stream) =
      (Inr ([CHR 0x00, CHR 0x00, CHR 0x00, CHR 0x0C] @ ''fileform uio''), top_label_fd 16)"
    by (simp add: top_label_fd_def top_label_stream_eq f_read_def open_rb_def)
  have tsk: "f_seek 0 (top_label_fd 16) = (Inr (), top_label_fd 0)"
    by (simp add: top_label_fd_def f_seek_def)
  from trd tsk have 2: "File_init top_label_stream =
     Inr \<lparr>fd = top_label_fd 49, header = Map.empty, entries = [label_foo 37], dataset = []\<rparr>"
    by (simp add: File_init_def thd tf)
  from 1 2 show ?thesis by simp
qed

subsection \<open>Tables\<close>

lemma dataset_loop_box_done:
  assumes "read_entry f = (Inr entry, f1)" and "type entry = ''label''"
    and "name entry = ''box''" and "read_box_entries f1 = (Inr es, f2)"
  shows "read_dataset_entries_loop acc f =
     read_dataset_entries_loop
       (acc @ [DsBox \<lparr>box_pos = f_pos f1, box_params = params entry, box_entries = es\<rparr>]) f2"
  using assms read_entry_open [OF assms(1)]
  by (subst read_dataset_entries_loop.simps) (simp add: f_tell_def)

lemma file_loop_dataset_done:
  assumes "read_entry f = (Inr entry, f1)" and "type entry = ''label''"
    and "name entry = ''dataset''" and "read_dataset_entries f1 = (Inr items, f2)"
  shows "read_file_entries_loop acc f =
     read_file_entries_loop
       (acc @ [FDataSet \<lparr>ds_pos = f_pos f2, ds_params = params entry,
                            ds_entries = ds_entries_of items, ds_box = ds_boxes_of items\<rparr>]) f2"
proof -
  from assms(4) have "f_adv f1 f2"
    by (auto simp: read_dataset_entries_def dest: read_dataset_entries_loop_adv)
  with read_entry_open [OF assms(1)] have "\<not> f_closed f2" by (simp add: f_adv_def)
  with assms show ?thesis
    by (subst read_file_entries_loop.simps) (simp add: f_tell_def)
qed

lemma box_reads_error:
  "box_reads f g \<Longrightarrow> fst (read_entry g) = Inl e \<Longrightarrow> fst (read_box_entries_loop acc f) = Inl e"
proof (induction arbitrary: acc rule: box_reads.induct)
  case (box_here f)
  then show ?case by (rule box_loop_error)
next
  case (box_next f entry f1 u f2 g)
  from box_next.IH [OF box_next.prems] box_loop_entry [OF box_next.hyps(1,2,3)]
  show ?case by simp
qed

lemma dataset_reads_error:
  "dataset_reads f g \<Longrightarrow> fst (read_entry g) = Inl e \<Longrightarrow>
   fst (read_dataset_entries_loop acc f) = Inl e"
proof (induction arbitrary: acc rule: dataset_reads.induct)
  case (ds_here f)
  then show ?case by (rule dataset_loop_error)
next
  case (ds_next f entry f1 u f2 g)
  from ds_next.IH [OF ds_next.prems] dataset_loop_entry [OF ds_next.hyps(1,2,3)]
  show ?case by simp
next
  case (ds_label f entry f1 g)
  from ds_label.IH [OF ds_label.prems] dataset_loop_other_label [OF ds_label.hyps(1,2,3,4)]
  show ?case by simp
next
  case (ds_in_box f entry f1 g)
  from box_reads_error [OF ds_in_box.hyps(4) ds_in_box.prems]
  have "fst (read_box_entries f1) = Inl e" by (simp add: read_box_entries_def)
  with ds_in_box.hyps show ?case by (intro dataset_loop_box_error)
next
  case (ds_after_box f entry f1 es f2 g)
  from ds_after_box.IH [OF ds_after_box.prems]
    dataset_loop_box_done [OF ds_after_box.hyps(1,2,3,4)]
  show ?case by simp
qed

lemma file_reads_error:
  "file_reads f g \<Longrightarrow> fst (read_entry g) = Inl e \<Longrightarrow> e \<noteq> EOFError \<Longrightarrow>
   fst (read_file_entries_loop acc f) = Inl e"
proof (induction arbitrary: acc rule: file_reads.induct)
  case (file_here f)
  then show ?case by (simp add: file_loop_error)
next
  case (file_next f entry f1 u f2 g)
  from file_next.IH [OF file_next.prems] file_loop_entry [OF file_next.hyps(1,2,3)]
  show ?case by simp
next
  case (file_in_dataset f entry f1 g)
  from dataset_reads_error [OF file_in_dataset.hyps(4) file_in_dataset.prems(1)]
  have "fst (read_dataset_entries f1) = Inl e" by (simp add: read_dataset_entries_def)
  with file_in_dataset.hyps show ?case by (intro file_loop_dataset_error)
next
  case (file_after_dataset f entry f1 items f2 g)
  from file_after_dataset.IH [OF file_after_dataset.prems]
    file_loop_dataset_done [OF file_after_dataset.hyps(1,2,3,4)]
  show ?case by simp
qed

lemma File_init_entries_error:
  assumes "drop 4 (take 16 bs) = ''fileform uio''"
    and "read_file_header (open_rb bs) = (Inr h, f)"
    and "fst (read_file_entries f) = Inl e"
  shows "File_init bs = Inl e"
proof -
  have "f_read (4 + 12) (open_rb bs) = (Inr (take 16 bs), (open_rb bs)\<lparr>f_pos := length (take 16 bs)\<rparr>)"
    by (simp add: f_read_def open_rb_def)
  moreover have "f_seek 0 ((open_rb bs)\<lparr>f_pos := length (take 16 bs)\<rparr>) = (Inr (), open_rb bs)"
    by (simp add: f_seek_def open_rb_def)
  ultimately show ?thesis
    using assms by (cases "read_file_entries f") (simp add: File_init_def)
qed

text \<open>
  C8, as the code has it. Whenever one of the loops gets to read a descriptor where a
  descriptor record of kind \<open>table\<close> begins, \<open>_read_entry\<close> raises the IOError for
  unsupported tables, and the enclosing construction fails with it: the loop that reads
  there, every loop around it, whatever they have collected, and \<open>File.__init__\<close>. The
  result is the exception, without any list of entries.
\<close>

theorem table_unsupported:
  assumes "read_string g = (Inr s, g1)"
    and "parse_descriptor s = Inr (Some (''table'', nm, ps))"
  shows "read_entry g = (Inl UnsupportedEntryKind, g1) \<and>
         (box_reads f g \<longrightarrow> fst (read_box_entries_loop box_acc f) = Inl UnsupportedEntryKind) \<and>
         (dataset_reads f g \<longrightarrow>
            fst (read_dataset_entries_loop ds_acc f) = Inl UnsupportedEntryKind) \<and>
         (file_reads f g \<longrightarrow> fst (read_file_entries_loop file_acc f) = Inl UnsupportedEntryKind) \<and>
         (drop 4 (take 16 bs) = ''fileform uio'' \<and> read_file_header (open_rb bs) = (Inr h, f) \<and>
          file_reads f g \<longrightarrow> File_init bs = Inl UnsupportedEntryKind)"
proof -
  note t = read_entry_table [OF assms]
  then have e: "fst (read_entry g) = Inl UnsupportedEntryKind" by simp
  have "File_init bs = Inl UnsupportedEntryKind"
    if "drop 4 (take 16 bs) = ''fileform uio''" "read_file_header (open_rb bs) = (Inr h, f)"
      "file_reads f g"
    using that file_reads_error [OF that(3) e, of "[]"]
    by (intro File_init_entries_error [of bs h f]) (simp_all add: read_file_entries_def)
  with t e show ?thesis
    by (simp add: box_reads_error dataset_reads_error file_reads_error)
qed

lemma skipped_table_stream_eq: "skipped_table_stream =
  [CHR 0x00, CHR 0x00, CHR 0x00, CHR 0x0C] @ ''fileform uio'' @ [CHR 0x00, CHR 0x00, CHR 0x00, CHR 0x0C] @
  [CHR 0x00, CHR 0x00, CHR 0x00, CHR 0x09] @ ''label foo'' @ [CHR 0x00, CHR 0x00, CHR 0x00, CHR 0x09] @
  [CHR 0x00, CHR 0x00, CHR 0x00, CHR 0x0B] @ ''table t b=4'' @ [CHR 0x00, CHR 0x00, CHR 0x00, CHR 0x0B]"
  by (simp add: skipped_table_stream_def uint_to_bytes_def char_of_def bit_0)

text \<open>
  The file \<open>fileform uio / label dataset / label box / table t b=4\<close>: the table stands
  where the box loop reads its first descriptor, inside the dataset loop, inside the
  file loop, and \<open>File.__init__\<close> fails.
\<close>

theorem table_unsupported_witness:
  "read_string (table_fd 58) = (Inr ''table t b=4'', table_fd 77) \<and>
   parse_descriptor ''table t b=4'' = Inr (Some (''table'', ''t'', [''b'' \<mapsto> ''4''])) \<and>
   read_file_header (open_rb table_stream) = (Inr Map.empty, table_fd 20) \<and>
   box_reads (table_fd 58) (table_fd 58) \<and>
   dataset_reads (table_fd 41) (table_fd 58) \<and>
   file_reads (table_fd 20) (table_fd 58) \<and>
   read_entry (table_fd 58) = (Inl UnsupportedEntryKind, table_fd 77) \<and>
   fst (read_box_entries_loop [] (table_fd 58)) = Inl UnsupportedEntryKind \<and>
   fst (read_dataset_entries_loop [] (table_fd 41)) = Inl UnsupportedEntryKind \<and>
   fst (read_file_entries_loop [] (table_fd 20)) = Inl UnsupportedEntryKind \<and>
   File_init table_stream = Inl UnsupportedEntryKind"
proof -
  have rs: "read_string (table_fd 58) = (Inr ''table t b=4'', table_fd 77)"
    by (simp add: table_fd_def table_stream_eq io_defs)
  have pd: "parse_descriptor ''table t b=4'' = Inr (Some (''table'', ''t'', [''b'' \<mapsto> ''4'']))"
    by (simp add: eval_defs)
  have e2: "read_entry (table_fd 41) =
      (Inr \<lparr>pos = 58, type = ''label'', name = ''box'', params = Map.empty, dtype = None,
            shape = None\<rparr>, table_fd 58)"
    by (simp add: table_fd_def table_stream_eq io_defs eval_defs entry_defs)
  have e1: "read_entry (table_fd 20) =
      (Inr \<lparr>pos = 41, type = ''label'', name = ''dataset'', params = Map.empty, dtype = None,
            shape = None\<rparr>, table_fd 41)"
    by (simp add: table_fd_def table_stream_eq io_defs eval_defs entry_defs)
  have op: "open_rb table_stream = table_fd 0"
    by (simp add: open_rb_def table_fd_def)
  have hd: "read_file_header (open_rb table_stream) = (Inr Map.empty, table_fd 20)"
    unfolding op
    by (simp add: table_fd_def table_stream_eq read_file_header_def io_defs eval_defs)
  have mg: "drop 4 (take 16 table_stream) = ''fileform uio''"
    by (simp add: table_stream_eq)
  have b: "box_reads (table_fd 58) (table_fd 58)"
    by (rule box_here)
  have d: "dataset_reads (table_fd 41) (table_fd 58)"
    by (rule ds_in_box [OF e2 _ _ b]) simp_all
  have f: "file_reads (table_fd 20) (table_fd 58)"
    by (rule file_in_dataset [OF e1 _ _ d]) simp_all
  note t58 = table_unsupported [OF rs pd, of "table_fd 58" "[]" "[]" "[]" table_stream Map.empty]
  note t41 = table_unsupported [OF rs pd, of "table_fd 41" "[]" "[]" "[]" table_stream Map.empty]
  note t20 = table_unsupported [OF rs pd, of "table_fd 20" "[]" "[]" "[]" table_stream Map.empty]
  from t58 b have 1: "read_entry (table_fd 58) = (Inl UnsupportedEntryKind, table_fd 77)"
    and 2: "fst (read_box_entries_loop [] (table_fd 58)) = Inl UnsupportedEntryKind"
    by blast+
  from t41 d have 3: "fst (read_dataset_entries_loop [] (table_fd 41)) = Inl UnsupportedEntryKind"
    by blast
  from t20 f mg hd have 4: "fst (read_file_entries_loop [] (table_fd 20)) = Inl UnsupportedEntryKind"
    and 5: "File_init table_stream = Inl UnsupportedEntryKind"
    by blast+
  show ?thesis
    apply (intro conjI)
    apply (rule rs)
    apply (rule pd)
    apply (rule hd)
    apply (rule b)
    apply (rule d)
    apply (rule f)
    apply (rule 1)
    apply (rule 2)
    apply (rule 3)
    apply (rule 4)
    apply (rule 5)
    done
qed

text \<open>
  The file \<open>fileform uio / label foo / table t b=4\<close>: the third record holds the text of
  a table descriptor, and read as a descriptor it would be one of kind \<open>table\<close>. The
  file loop never reads it as one: it is skipped as the record behind the entry \<open>foo\<close>.
  \<open>File.__init__\<close> returns, with the one entry \<open>foo\<close>.
\<close>

theorem skipped_table_counterexample:
  "read_string (skipped_table_fd 37) = (Inr ''table t b=4'', skipped_table_fd 56) \<and>
   parse_descriptor ''table t b=4'' = Inr (Some (''table'', ''t'', [''b'' \<mapsto> ''4''])) \<and>
   read_entry (skipped_table_fd 37) = (Inl UnsupportedEntryKind, skipped_table_fd 56) \<and>
   File_init skipped_table_stream =
     Inr \<lparr>fd = skipped_table_fd 56, header = Map.empty, entries = [label_foo 37], dataset = []\<rparr>"
proof -
  have rs: "read_string (skipped_table_fd 37) = (Inr ''table t b=4'', skipped_table_fd 56)"
    by (simp add: skipped_table_fd_def skipped_table_stream_eq io_defs)
  have pd: "parse_descriptor ''table t b=4'' = Inr (Some (''table'', ''t'', [''b'' \<mapsto> ''4'']))"
    by (simp add: eval_defs)
  note re = read_entry_table [OF rs pd]
  have t1: "read_entry (skipped_table_fd 20) = (Inr (label_foo 37), skipped_table_fd 37)"
    by (simp add: skipped_table_fd_def skipped_table_stream_eq label_foo_def io_defs eval_defs
        entry_defs)
  have t2: "skip_block (skipped_table_fd 37) = (Inr (), skipped_table_fd 56)"
    by (simp add: skipped_table_fd_def skipped_table_stream_eq io_defs)
  have t3: "read_entry (skipped_table_fd 56) = (Inl EOFError, skipped_table_fd 56)"
    by (simp add: skipped_table_fd_def skipped_table_stream_eq read_entry_def io_defs)
  have "read_file_entries_loop [] (skipped_table_fd 20) =
      read_file_entries_loop ([] @ [FEntry (label_foo 37)]) (skipped_table_fd 56)"
    by (rule file_loop_entry [OF t1 _ t2]) (simp add: label_foo_def)
  also have "\<dots> = (Inr [FEntry (label_foo 37)], skipped_table_fd 56)"
    by (simp add: read_file_entries_loop.simps [of _ "skipped_table_fd 56"] t3)
  finally have tf: "read_file_entries (skipped_table_fd 20) =
      (Inr [FEntry (label_foo 37)], skipped_table_fd 56)"
    by (simp add: read_file_entries_def)
  have thd: "read_file_header (skipped_table_fd 0) = (Inr Map.empty, skipped_table_fd 20)"
    by (simp add: skipped_table_fd_def skipped_table_stream_eq read_file_header_def io_defs
        eval_defs)
  have trd: "f_read (4 + 12) (open_rb skipped_table_stream) =
      (Inr ([CHR 0x00, CHR 0x00, CHR 0x00, CHR 0x0C] @ ''fileform uio''), skipped_table_fd 16)"
    by (simp add: skipped_table_fd_def skipped_table_stream_eq f_read_def open_rb_def)
  have tsk: "f_seek 0 (skipped_table_fd 16) = (Inr (), skipped_table_fd 0)"
    by (simp add: skipped_table_fd_def f_seek_def)
  from trd tsk have "File_init skipped_table_stream =
     Inr \<lparr>fd = skipped_table_fd 56, header = Map.empty, entries = [label_foo 37], dataset = []\<rparr>"
    by (simp add: File_init_def thd tf)
  with rs pd re show ?thesis by simp
qed

subsection \<open>Character data\<close>













end
